theory Spec2Isabelle
  imports Complex_Main "HOL-Library.Multiset"
begin

section \<open>Exceptions\<close>

text \<open>
  Every exception of the boxing package is a Python built-in class carrying a formatted
  message. A message is kept as its template together with the values interpolated into
  it, so that two exceptions are equal exactly when they have the same class, come from
  the same \<^verbatim>\<open>raise\<close> statement and format the same values. The last three templates
  are raised by Python's own arithmetic.
\<close>

datatype pyfloat = Finite real | PosInf | NegInf | NaN

datatype message =
    Two_boxers_needed            \<comment> \<open>"There must be two boxers to start a fight."\<close>
  | Ring_is_full                 \<comment> \<open>"Ring is full, cannot add more boxers."\<close>
  | Invalid_type string          \<comment> \<open>"Invalid type: Expected 'Boxer', got '{type name}'"\<close>
  | Too_many_values_to_unpack    \<comment> \<open>raised by the tuple assignment in \<^verbatim>\<open>fight\<close>\<close>
  | Invalid_weight int           \<comment> \<open>"Invalid weight: {weight}. Weight must be at least 125."\<close>
  | Weight_below_125 int         \<comment> \<open>"Invalid weight: {weight}. Must be at least 125."\<close>
  | Height_not_positive int      \<comment> \<open>"Invalid height: {height}. Must be greater than 0."\<close>
  | Reach_not_positive pyfloat   \<comment> \<open>"Invalid reach: {reach}. Must be greater than 0."\<close>
  | Age_out_of_range int         \<comment> \<open>"Invalid age: {age}. Must be between 18 and 40."\<close>
  | Boxer_name_exists string     \<comment> \<open>"Boxer with name '{name}' already exists"\<close>
  | Invalid_result string        \<comment> \<open>"Invalid result: {result}. Expected 'win' or 'loss'."\<close>
  | Boxer_id_not_found int       \<comment> \<open>"Boxer with ID {boxer_id} not found."\<close>
  | Invalid_sort_by string       \<comment> \<open>"Invalid sort_by parameter: {sort_by}"\<close>
  | Invalid_response string      \<comment> \<open>"Invalid response from random.org: {text}"\<close>
  | Request_timed_out            \<comment> \<open>"Request to random.org timed out."\<close>
  | Request_failed               \<comment> \<open>"Request to random.org failed: ..."\<close>
  | Int_too_large                \<comment> \<open>"int too large to convert to float"\<close>
  | Float_division_by_zero       \<comment> \<open>"float division by zero"\<close>
  | Result_out_of_range          \<comment> \<open>"(34, 'Numerical result out of range')"\<close>

datatype error =
    ValueError message
  | TypeError message
  | RuntimeError message
  | OverflowError message
  | ZeroDivisionError message

section \<open>Python floats\<close>

text \<open>
  A Python \<^verbatim>\<open>float\<close> is an IEEE 754 binary64 number: not-a-number, an infinity, or a
  finite value m * 2^e with \<bar>m\<bar> < 2^53 and -1074 \<le> e \<le> 971 (the two zeros
  are not told apart; nothing here looks at the sign of a zero). Addition, subtraction,
  multiplication, division and the conversion from \<^verbatim>\<open>int\<close> return the exact result
  rounded to the nearest such value, a tie going to the even m.

  \<open>round_half_even\<close> rounds a real to the nearest integer, ties to even; \<open>binade x\<close>
  is the exponent of the power of two at or below \<bar>x\<bar>, held at -1022 for the
  subnormal range, so that neighbouring doubles around x are \<open>pow2 (binade x - 52)\<close>
  apart; \<open>double_of\<close> rounds to the nearest multiple of that spacing, and \<open>to_double\<close>
  turns a result of magnitude 2^1024 or more into an infinity.
\<close>

definition round_half_even :: "real \<Rightarrow> int" where
  "round_half_even x =
     (let f = \<lfloor>x\<rfloor>; d = x - of_int f
      in if d < 1 / 2 then f else if 1 / 2 < d then f + 1 else if even f then f else f + 1)"

definition pow2 :: "int \<Rightarrow> real" where
  "pow2 e = (if 0 \<le> e then 2 ^ nat e else 1 / 2 ^ nat (- e))"

definition binade :: "real \<Rightarrow> int" where
  "binade x = max \<lfloor>log 2 \<bar>x\<bar>\<rfloor> (- 1022)"

definition double_of :: "real \<Rightarrow> real" where
  "double_of x =
     (if x = 0 then 0
      else of_int (round_half_even (x / pow2 (binade x - 52))) * pow2 (binade x - 52))"

definition to_double :: "real \<Rightarrow> pyfloat" where
  "to_double x =
     (if pow2 1024 \<le> double_of x then PosInf
      else if double_of x \<le> - pow2 1024 then NegInf
      else Finite (double_of x))"

fun fneg :: "pyfloat \<Rightarrow> pyfloat" where
  "fneg (Finite x) = Finite (- x)"
| "fneg PosInf = NegInf"
| "fneg NegInf = PosInf"
| "fneg NaN = NaN"

fun fabs :: "pyfloat \<Rightarrow> pyfloat" where
  "fabs (Finite x) = Finite \<bar>x\<bar>"
| "fabs PosInf = PosInf"
| "fabs NegInf = PosInf"
| "fabs NaN = NaN"

fun fadd :: "pyfloat \<Rightarrow> pyfloat \<Rightarrow> pyfloat" where
  "fadd NaN b = NaN"
| "fadd a NaN = NaN"
| "fadd PosInf NegInf = NaN"
| "fadd NegInf PosInf = NaN"
| "fadd PosInf b = PosInf"
| "fadd NegInf b = NegInf"
| "fadd a PosInf = PosInf"
| "fadd a NegInf = NegInf"
| "fadd (Finite x) (Finite y) = to_double (x + y)"

definition fsub :: "pyfloat \<Rightarrow> pyfloat \<Rightarrow> pyfloat" where
  "fsub a b = fadd a (fneg b)"

text \<open>The product of an infinity and zero is not a number; otherwise the signs multiply.\<close>

fun fmul :: "pyfloat \<Rightarrow> pyfloat \<Rightarrow> pyfloat" where
  "fmul NaN b = NaN"
| "fmul a NaN = NaN"
| "fmul (Finite x) (Finite y) = to_double (x * y)"
| "fmul (Finite x) b =
     (if x = 0 then NaN else if (0 < x) = (b = PosInf) then PosInf else NegInf)"
| "fmul a (Finite y) =
     (if y = 0 then NaN else if (0 < y) = (a = PosInf) then PosInf else NegInf)"
| "fmul a b = (if a = b then PosInf else NegInf)"

text \<open>
  \<^verbatim>\<open>a / b\<close> on floats raises \<^verbatim>\<open>ZeroDivisionError\<close> when b is zero, before anything
  else is looked at.
\<close>

fun fdiv :: "pyfloat \<Rightarrow> pyfloat \<Rightarrow> error + pyfloat" where
  "fdiv a (Finite y) =
     (if y = 0 then Inl (ZeroDivisionError Float_division_by_zero)
      else case a of
        Finite x \<Rightarrow> Inr (to_double (x / y))
      | NaN \<Rightarrow> Inr NaN
      | _ \<Rightarrow> Inr (if (0 < y) = (a = PosInf) then PosInf else NegInf))"
| "fdiv a NaN = Inr NaN"
| "fdiv (Finite x) b = Inr (Finite 0)"
| "fdiv a b = Inr NaN"

text \<open>Comparisons with not-a-number are false.\<close>

fun flt :: "pyfloat \<Rightarrow> pyfloat \<Rightarrow> bool" where
  "flt NaN b = False"
| "flt a NaN = False"
| "flt (Finite x) (Finite y) = (x < y)"
| "flt PosInf b = False"
| "flt a NegInf = False"
| "flt a b = True"

fun fle :: "pyfloat \<Rightarrow> pyfloat \<Rightarrow> bool" where
  "fle NaN b = False"
| "fle a NaN = False"
| "fle (Finite x) (Finite y) = (x \<le> y)"
| "fle NegInf b = True"
| "fle a PosInf = True"
| "fle a b = False"

text \<open>
  An \<^verbatim>\<open>int\<close> meeting a float in an arithmetic operation is converted first, and an
  \<^verbatim>\<open>int\<close> that rounds to 2^1024 or beyond raises \<^verbatim>\<open>OverflowError\<close>.
\<close>

definition int_to_float :: "int \<Rightarrow> error + pyfloat" where
  "int_to_float n =
     (case to_double (of_int n) of
        Finite y \<Rightarrow> Inr (Finite y)
      | _ \<Rightarrow> Inl (OverflowError Int_too_large))"

text \<open>
  \<^verbatim>\<open>round(x, ndigits)\<close> on a float returns the float nearest to the multiple of 10 to
  the power minus \<^verbatim>\<open>ndigits\<close> that is nearest to the exact value of x, the even
  multiple when x is exactly halfway; infinities and not-a-number round to themselves.
\<close>

definition py_round :: "pyfloat \<Rightarrow> nat \<Rightarrow> pyfloat" where
  "py_round x ndigits =
     (case x of
        Finite v \<Rightarrow> to_double (of_int (round_half_even (v * 10 ^ ndigits)) / 10 ^ ndigits)
      | _ \<Rightarrow> x)"

text \<open>
  \<^verbatim>\<open>math.e\<close> is the double nearest to Euler's number. \<^verbatim>\<open>math.e ** x\<close> is 1.0 for a zero
  exponent, follows the rules for infinite and not-a-number exponents, and otherwise is
  what the platform's C library computes for \<^verbatim>\<open>pow\<close>, which no standard pins down to
  the last bit: that function, from a finite nonzero exponent to a float or to the
  \<^verbatim>\<open>OverflowError\<close> of a result out of range, is a parameter.
\<close>

definition math_e :: real where
  "math_e = 6121026514868073 / 2 ^ 51"

definition float_pow_e :: "(real \<Rightarrow> error + pyfloat) \<Rightarrow> pyfloat \<Rightarrow> error + pyfloat" where
  "float_pow_e libm x =
     (case x of
        Finite y \<Rightarrow> if y = 0 then Inr (Finite 1) else libm y
      | PosInf \<Rightarrow> Inr PosInf
      | NegInf \<Rightarrow> Inr (Finite 0)
      | NaN \<Rightarrow> Inr NaN)"

text \<open>
  What every C library guarantees of a base above 1 raised to a negative power: a finite
  result between 0 and 1. A library that rounds the exact power correctly is one such.
\<close>

definition pow_in_unit_interval :: "(real \<Rightarrow> error + pyfloat) \<Rightarrow> bool" where
  "pow_in_unit_interval libm \<longleftrightarrow> (\<forall>y < 0. \<exists>p. libm y = Inr (Finite p) \<and> 0 \<le> p \<and> p \<le> 1)"

definition correctly_rounded_pow :: "real \<Rightarrow> error + pyfloat" where
  "correctly_rounded_pow y =
     (case to_double (math_e powr y) of
        PosInf \<Rightarrow> Inl (OverflowError Result_out_of_range)
      | v \<Rightarrow> Inr v)"

section \<open>Boxers and the boxers table\<close>

text \<open>
  The dataclass \<^verbatim>\<open>Boxer\<close> and a row of the SQL table \<^verbatim>\<open>boxers\<close> share the
  columns id, name, weight, height, reach and age. Python's \<^verbatim>\<open>int\<close> is unbounded
  (\<^typ>\<open>int\<close>) and \<^verbatim>\<open>reach\<close> is a float. The field \<^verbatim>\<open>id\<close> is called
  \<open>boxer_id\<close>, the name the package uses for it in every parameter list. One element
  of a name is one character, which is what \<^verbatim>\<open>len\<close> counts.
\<close>

record biometrics =
  boxer_id :: int
  name :: string
  weight :: int
  height :: int
  reach :: pyfloat
  age :: int

record Boxer = biometrics +
  weight_class :: string

record row = biometrics +
  fights :: int
  wins :: int

subsection \<open>\<^verbatim>\<open>get_weight_class\<close>\<close>

definition get_weight_class :: "int \<Rightarrow> error + string" where
  "get_weight_class w =
     (if w \<ge> 203 then Inr ''HEAVYWEIGHT''
      else if w \<ge> 166 then Inr ''MIDDLEWEIGHT''
      else if w \<ge> 133 then Inr ''LIGHTWEIGHT''
      else if w \<ge> 125 then Inr ''FEATHERWEIGHT''
      else Inl (ValueError (Invalid_weight w)))"

text \<open>
  Constructing a \<^verbatim>\<open>Boxer\<close> runs \<^verbatim>\<open>__post_init__\<close>, which assigns the weight class
  and lets the \<^verbatim>\<open>ValueError\<close> of a weight below 125 escape.
\<close>

definition Boxer_init :: "int \<Rightarrow> string \<Rightarrow> int \<Rightarrow> int \<Rightarrow> pyfloat \<Rightarrow> int \<Rightarrow> error + Boxer" where
  "Boxer_init i n w h r a =
     (case get_weight_class w of
        Inl e \<Rightarrow> Inl e
      | Inr wc \<Rightarrow>
          Inr \<lparr>boxer_id = i, name = n, weight = w, height = h, reach = r, age = a,
               weight_class = wc\<rparr>)"

subsection \<open>\<^verbatim>\<open>create_boxer\<close> and \<^verbatim>\<open>delete_boxer\<close>\<close>

text \<open>
  The table is the list of its rows. \<^verbatim>\<open>create_boxer\<close> is the only statement that
  inserts: the four range checks come first, then the lookup of the name, then the insert
  with both counters at their column default 0. The id of the new row is chosen by the
  database and is a parameter here. Statements are taken to execute:
  \<^verbatim>\<open>sqlite3.Error\<close>, which every function of the module re-raises unchanged, has no
  source in this model.
\<close>

definition create_boxer ::
  "int \<Rightarrow> string \<Rightarrow> int \<Rightarrow> int \<Rightarrow> pyfloat \<Rightarrow> int \<Rightarrow> row list \<Rightarrow> error + row list" where
  "create_boxer new_id n w h r a tbl =
     (if w < 125 then Inl (ValueError (Weight_below_125 w))
      else if h \<le> 0 then Inl (ValueError (Height_not_positive h))
      else if fle r (Finite 0) then Inl (ValueError (Reach_not_positive r))
      else if \<not> (18 \<le> a \<and> a \<le> 40) then Inl (ValueError (Age_out_of_range a))
      else if filter (\<lambda>row. name row = n) tbl \<noteq> [] then Inl (ValueError (Boxer_name_exists n))
      else Inr (tbl @ [\<lparr>boxer_id = new_id, name = n, weight = w, height = h, reach = r,
                        age = a, fights = 0, wins = 0\<rparr>]))"

definition select_id :: "int \<Rightarrow> row list \<Rightarrow> int list" where
  "select_id bid tbl = map boxer_id (filter (\<lambda>r. boxer_id r = bid) tbl)"

definition delete_boxer :: "int \<Rightarrow> row list \<Rightarrow> error + row list" where
  "delete_boxer bid tbl =
     (if select_id bid tbl = [] then Inl (ValueError (Boxer_id_not_found bid))
      else Inr (filter (\<lambda>r. boxer_id r \<noteq> bid) tbl))"

subsection \<open>\<^verbatim>\<open>update_boxer_stats\<close>\<close>

text \<open>
  \<^verbatim>\<open>SELECT id FROM boxers WHERE id = ?\<close> yields the ids of the matching rows, and
  \<^verbatim>\<open>fetchone()\<close> is \<^verbatim>\<open>None\<close> when there is none. \<^verbatim>\<open>UPDATE boxers SET ... WHERE
  id = ?\<close> rewrites every matching row in place and leaves the others.
\<close>

definition update_boxer_stats :: "int \<Rightarrow> string \<Rightarrow> row list \<Rightarrow> error + row list" where
  "update_boxer_stats bid result tbl =
     (if result \<notin> {''win'', ''loss''} then Inl (ValueError (Invalid_result result))
      else if select_id bid tbl = [] then Inl (ValueError (Boxer_id_not_found bid))
      else if result = ''win'' then
        Inr (map (\<lambda>r. if boxer_id r = bid
                       then r\<lparr>fights := fights r + 1, wins := wins r + 1\<rparr> else r) tbl)
      else
        Inr (map (\<lambda>r. if boxer_id r = bid then r\<lparr>fights := fights r + 1\<rparr> else r) tbl))"

text \<open>
  The table states the package can produce are those reached from the empty table by its
  three writing operations; an operation that raises leaves the table as it was.
\<close>

datatype store_call =
    Create_boxer int string int int pyfloat int
  | Delete_boxer int
  | Update_boxer_stats int string

fun store_step :: "row list \<Rightarrow> store_call \<Rightarrow> row list" where
  "store_step tbl (Create_boxer new_id n w h r a) =
     (case create_boxer new_id n w h r a tbl of Inl e \<Rightarrow> tbl | Inr tbl' \<Rightarrow> tbl')"
| "store_step tbl (Delete_boxer bid) =
     (case delete_boxer bid tbl of Inl e \<Rightarrow> tbl | Inr tbl' \<Rightarrow> tbl')"
| "store_step tbl (Update_boxer_stats bid result) =
     (case update_boxer_stats bid result tbl of Inl e \<Rightarrow> tbl | Inr tbl' \<Rightarrow> tbl')"

subsection \<open>\<^verbatim>\<open>RingModel.get_fighting_skill\<close>\<close>

text \<open>
  \<^verbatim>\<open>weight * len(name)\<close> is an exact integer product and \<^verbatim>\<open>reach / 10\<close> a float
  division. Adding the two converts the product to a float, which raises
  \<^verbatim>\<open>OverflowError\<close> when it is too large; the age modifier, a small integer, converts
  exactly. Each of the two additions rounds.
\<close>

definition age_modifier :: "int \<Rightarrow> int" where
  "age_modifier a = (if a < 25 then - 1 else (if a > 35 then - 2 else 0))"

definition get_fighting_skill :: "Boxer \<Rightarrow> error + pyfloat" where
  "get_fighting_skill boxer =
     (case fdiv (reach boxer) (Finite 10) of
        Inl e \<Rightarrow> Inl e
      | Inr tenth \<Rightarrow>
          (case int_to_float (weight boxer * int (length (name boxer))) of
             Inl e \<Rightarrow> Inl e
           | Inr product \<Rightarrow>
               Inr (fadd (fadd product tenth)
                      (Finite (real_of_int (age_modifier (age boxer)))))))"

section \<open>The random source\<close>

text \<open>
  What one request to random.org comes back with: a body that \<^verbatim>\<open>float\<close> parses (to any
  float, not-a-number and the infinities included), a body that it rejects, a timeout, or
  any other \<^verbatim>\<open>RequestException\<close> (an HTTP error status included).
\<close>

datatype response =
    Body_number pyfloat
  | Body_malformed string
  | Timeout
  | Request_exception

definition get_random :: "response \<Rightarrow> error + pyfloat" where
  "get_random rsp =
     (case rsp of
        Body_number random_number \<Rightarrow> Inr random_number
      | Body_malformed random_number_str \<Rightarrow> Inl (ValueError (Invalid_response random_number_str))
      | Timeout \<Rightarrow> Inl (RuntimeError Request_timed_out)
      | Request_exception \<Rightarrow> Inl (RuntimeError Request_failed))"

section \<open>The ring\<close>

text \<open>
  Python is dynamically typed, so \<^verbatim>\<open>enter_ring\<close> can be handed any object; the objects
  that matter are a \<^verbatim>\<open>Boxer\<close> and the values that are not one.
\<close>

datatype pyobj = PyBoxer Boxer | PyInt int | PyFloat pyfloat | PyStr string | PyNone

fun type_name :: "pyobj \<Rightarrow> string" where
  "type_name (PyBoxer _) = ''Boxer''"
| "type_name (PyInt _) = ''int''"
| "type_name (PyFloat _) = ''float''"
| "type_name (PyStr _) = ''str''"
| "type_name PyNone = ''NoneType''"

text \<open>
  Everything a ring operation can read or change: the list \<^verbatim>\<open>self.ring\<close>, the table
  \<^verbatim>\<open>boxers\<close>, the random source, given by the response to its n-th request and the
  number of requests made so far, and the C library's power function behind
  \<^verbatim>\<open>math.e ** x\<close>. \<open>calls\<close> records, in order, each call that leaves
  \<^verbatim>\<open>ring_model.py\<close> for a collaborator; nothing reads it.
\<close>

datatype call = Call_get_random | Call_update_boxer_stats int string

record world =
  ring :: "Boxer list"
  boxers :: "row list"
  random_org :: "nat \<Rightarrow> response"
  requests :: nat
  libm_pow :: "real \<Rightarrow> error + pyfloat"
  calls :: "call list"

definition call_get_random :: "world \<Rightarrow> (error + pyfloat) \<times> world" where
  "call_get_random w =
     (get_random (random_org w (requests w)),
      w\<lparr>requests := requests w + 1, calls := calls w @ [Call_get_random]\<rparr>)"

definition call_update_boxer_stats :: "int \<Rightarrow> string \<Rightarrow> world \<Rightarrow> (error + unit) \<times> world" where
  "call_update_boxer_stats bid result w =
     (case update_boxer_stats bid result (boxers w) of
        Inl e \<Rightarrow> (Inl e, w\<lparr>calls := calls w @ [Call_update_boxer_stats bid result]\<rparr>)
      | Inr tbl \<Rightarrow>
          (Inr (), w\<lparr>boxers := tbl, calls := calls w @ [Call_update_boxer_stats bid result]\<rparr>))"

definition clear_ring :: "world \<Rightarrow> world" where
  "clear_ring w = (if ring w = [] then w else w\<lparr>ring := []\<rparr>)"

definition enter_ring :: "pyobj \<Rightarrow> world \<Rightarrow> (error + unit) \<times> world" where
  "enter_ring boxer w =
     (case boxer of
        PyBoxer b \<Rightarrow>
          if length (ring w) \<ge> 2 then (Inl (ValueError Ring_is_full), w)
          else (Inr (), w\<lparr>ring := ring w @ [b]\<rparr>)
      | _ \<Rightarrow> (Inl (TypeError (Invalid_type (type_name boxer))), w))"

definition get_boxers :: "world \<Rightarrow> Boxer list" where
  "get_boxers w = ring w"

text \<open>
  Lines 39 and 40 of \<^verbatim>\<open>fight\<close>: \<^verbatim>\<open>delta = abs(skill_1 - skill_2)\<close> and
  \<^verbatim>\<open>normalized_delta = 1 / (1 + math.e ** (-delta))\<close>, each operation on floats.
\<close>

definition normalized_delta ::
  "(real \<Rightarrow> error + pyfloat) \<Rightarrow> pyfloat \<Rightarrow> pyfloat \<Rightarrow> error + pyfloat" where
  "normalized_delta libm skill_1 skill_2 =
     (let delta = fabs (fsub skill_1 skill_2)
      in case float_pow_e libm (fneg delta) of
           Inl e \<Rightarrow> Inl e
         | Inr e_pow \<Rightarrow> fdiv (Finite 1) (fadd (Finite 1) e_pow))"

text \<open>
  \<^verbatim>\<open>boxer_1, boxer_2 = self.get_boxers()\<close> unpacks exactly two elements; a longer list
  raises \<^verbatim>\<open>ValueError\<close>. Each exception leaves the function at once, with the world as
  it is at that point.
\<close>

definition fight :: "world \<Rightarrow> (error + string) \<times> world" where
  "fight w =
     (if length (ring w) < 2 then (Inl (ValueError Two_boxers_needed), w)
      else case get_boxers w of
        [boxer_1, boxer_2] \<Rightarrow>
          (case get_fighting_skill boxer_1 of
             Inl e \<Rightarrow> (Inl e, w)
           | Inr skill_1 \<Rightarrow>
          (case get_fighting_skill boxer_2 of
             Inl e \<Rightarrow> (Inl e, w)
           | Inr skill_2 \<Rightarrow>
          (case normalized_delta (libm_pow w) skill_1 skill_2 of
             Inl e \<Rightarrow> (Inl e, w)
           | Inr nd \<Rightarrow>
          (case call_get_random w of
             (Inl e, w1) \<Rightarrow> (Inl e, w1)
           | (Inr random_number, w1) \<Rightarrow>
               (let (winner, loser) =
                      (if flt random_number nd then (boxer_1, boxer_2)
                       else (boxer_2, boxer_1))
                in case call_update_boxer_stats (boxer_id winner) ''win'' w1 of
                     (Inl e, w2) \<Rightarrow> (Inl e, w2)
                   | (Inr _, w2) \<Rightarrow>
                       (case call_update_boxer_stats (boxer_id loser) ''loss'' w2 of
                          (Inl e, w3) \<Rightarrow> (Inl e, w3)
                        | (Inr _, w3) \<Rightarrow> (Inr (name winner), clear_ring w3)))))))
      | _ \<Rightarrow> (Inl (ValueError Too_many_values_to_unpack), w))"

text \<open>
  A caller drives a ring through its four methods, starting from the empty list that
  \<^verbatim>\<open>__init__\<close> assigns; an exception leaves the ring as the method left it.
\<close>

datatype ring_call = Enter_ring pyobj | Fight | Clear_ring | Get_boxers

fun ring_step :: "world \<Rightarrow> ring_call \<Rightarrow> world" where
  "ring_step w (Enter_ring x) = snd (enter_ring x w)"
| "ring_step w Fight = snd (fight w)"
| "ring_step w Clear_ring = clear_ring w"
| "ring_step w Get_boxers = w"

section \<open>The leaderboard\<close>

text \<open>
  The query selects, from the rows with \<^verbatim>\<open>fights > 0\<close>, the eight columns and
  \<^verbatim>\<open>(wins * 1.0 / fights) AS win_pct\<close>. SQLite's integers have 64 bits, so their
  conversion to a double always rounds to a finite value; the product with 1.0 and the
  quotient are doubles again. A fetched row is the table row paired with that ninth
  column. \<^verbatim>\<open>ORDER BY ... DESC\<close> sorts by decreasing key; rows with equal keys, whose
  order SQL leaves open, keep their table order here.
\<close>

definition sql_real :: "int \<Rightarrow> real" where
  "sql_real n = double_of (real_of_int n)"

definition sql_win_pct :: "row \<Rightarrow> real" where
  "sql_win_pct r = double_of (double_of (sql_real (wins r) * 1.0) / sql_real (fights r))"

definition select_where_fights :: "row list \<Rightarrow> (row \<times> real) list" where
  "select_where_fights tbl = map (\<lambda>r. (r, sql_win_pct r)) (filter (\<lambda>r. fights r > 0) tbl)"

definition order_by_win_pct_desc :: "(row \<times> real) list \<Rightarrow> (row \<times> real) list" where
  "order_by_win_pct_desc rows = sort_key (\<lambda>row. - snd row) rows"

definition order_by_wins_desc :: "(row \<times> real) list \<Rightarrow> (row \<times> real) list" where
  "order_by_wins_desc rows = sort_key (\<lambda>row. - wins (fst row)) rows"

text \<open>
  A leaderboard entry is a Python dict, kept as the list of its items in insertion order;
  \<^verbatim>\<open>d[k]\<close> is \<open>map_of d k\<close>. The ninth column arrives in Python as a float, and
  \<^verbatim>\<open>round(row[8] * 100, 1)\<close> multiplies and rounds it there.
\<close>

type_synonym dict = "(string \<times> pyobj) list"

definition boxer_dict :: "row \<times> real \<Rightarrow> string \<Rightarrow> dict" where
  "boxer_dict row wc =
     [(''id'', PyInt (boxer_id (fst row))),
      (''name'', PyStr (name (fst row))),
      (''weight'', PyInt (weight (fst row))),
      (''height'', PyInt (height (fst row))),
      (''reach'', PyFloat (reach (fst row))),
      (''age'', PyInt (age (fst row))),
      (''weight_class'', PyStr wc),
      (''fights'', PyInt (fights (fst row))),
      (''wins'', PyInt (wins (fst row))),
      (''win_pct'', PyFloat (py_round (fmul (Finite (snd row)) (Finite 100)) 1))]"

text \<open>
  The loop over the fetched rows appends one dict per row; \<^verbatim>\<open>get_weight_class\<close> raising
  on a row ends the function with that error.
\<close>

fun leaderboard_loop :: "(row \<times> real) list \<Rightarrow> dict list \<Rightarrow> error + dict list" where
  "leaderboard_loop [] leaderboard = Inr leaderboard"
| "leaderboard_loop (row # rows) leaderboard =
     (case get_weight_class (weight (fst row)) of
        Inl e \<Rightarrow> Inl e
      | Inr wc \<Rightarrow> leaderboard_loop rows (leaderboard @ [boxer_dict row wc]))"

definition get_leaderboard :: "string \<Rightarrow> row list \<Rightarrow> error + dict list" where
  "get_leaderboard sort_by tbl =
     (if sort_by = ''win_pct'' then
        leaderboard_loop (order_by_win_pct_desc (select_where_fights tbl)) []
      else if sort_by = ''wins'' then
        leaderboard_loop (order_by_wins_desc (select_where_fights tbl)) []
      else Inl (ValueError (Invalid_sort_by sort_by)))"

section \<open>Sample data\<close>

text \<open>
  The two boxers of the package's test fixtures, a third whose skill equals the first's,
  two featherweights whose skills differ in the last bit only, and two boxers of infinite
  reach; a table row holding a boxer's columns with given counters; a ring staged with two
  given boxers over a given table, whose random source answers every request with a given
  number and whose power function rounds correctly.
\<close>

definition row_of :: "Boxer \<Rightarrow> int \<Rightarrow> int \<Rightarrow> row" where
  "row_of b f v =
     \<lparr>boxer_id = boxer_id b, name = name b, weight = weight b, height = height b,
      reach = reach b, age = age b, fights = f, wins = v\<rparr>"

definition mike_tyson :: Boxer where
  "mike_tyson = \<lparr>boxer_id = 1, name = ''Mike Tyson'', weight = 220, height = 178,
     reach = Finite 71, age = 25, weight_class = ''HEAVYWEIGHT''\<rparr>"

definition muhammad_ali :: Boxer where
  "muhammad_ali = \<lparr>boxer_id = 2, name = ''Muhammad Ali'', weight = 215, height = 191,
     reach = Finite 78, age = 30, weight_class = ''HEAVYWEIGHT''\<rparr>"

definition evander :: Boxer where
  "evander = \<lparr>boxer_id = 3, name = ''Evander H.'', weight = 220, height = 189,
     reach = Finite 71, age = 30, weight_class = ''HEAVYWEIGHT''\<rparr>"

definition al :: Boxer where
  "al = \<lparr>boxer_id = 1, name = ''Al'', weight = 125, height = 170,
     reach = Finite 51, age = 30, weight_class = ''FEATHERWEIGHT''\<rparr>"

definition bo :: Boxer where
  "bo = \<lparr>boxer_id = 2, name = ''Bo'', weight = 125, height = 170,
     reach = Finite 61, age = 20, weight_class = ''FEATHERWEIGHT''\<rparr>"

definition ann :: Boxer where
  "ann = \<lparr>boxer_id = 1, name = ''Ann'', weight = 150, height = 170,
     reach = PosInf, age = 30, weight_class = ''LIGHTWEIGHT''\<rparr>"

definition bob :: Boxer where
  "bob = \<lparr>boxer_id = 2, name = ''Bob'', weight = 200, height = 180,
     reach = PosInf, age = 30, weight_class = ''MIDDLEWEIGHT''\<rparr>"

definition staged :: "Boxer \<Rightarrow> Boxer \<Rightarrow> real \<Rightarrow> row list \<Rightarrow> world" where
  "staged b1 b2 r tbl =
     \<lparr>ring = [b1, b2], boxers = tbl,
      random_org = (\<lambda>n. Body_number (to_double r)), requests = 0,
      libm_pow = correctly_rounded_pow, calls = []\<rparr>"

definition staged_fight :: "row list \<Rightarrow> world" where
  "staged_fight tbl = staged mike_tyson muhammad_ali (1 / 10) tbl"

definition leaderboard_table :: "row list" where
  "leaderboard_table =
     [row_of mike_tyson 80 23, row_of evander 0 0, row_of muhammad_ali 80 49]"

section \<open>Facts about rounding\<close>

lemma pow2_powr: "pow2 e = 2 powr real_of_int e"
  by (simp add: pow2_def powr_int)

lemma pow2_pos [simp]: "0 < pow2 e"
  by (simp add: pow2_def)

lemma pow2_nonneg [simp]: "0 \<le> pow2 e"
  using pow2_pos [of e] by linarith

lemma pow2_not_le_0 [simp]: "\<not> pow2 e \<le> 0"
  using pow2_pos [of e] by linarith

lemma pow2_neq_0 [simp]: "pow2 e \<noteq> 0"
  using pow2_pos [of e] by linarith

lemma pow2_add: "pow2 (a + b) = pow2 a * pow2 b"
  by (simp add: pow2_powr powr_add)

lemma pow2_mono: "a \<le> b \<Longrightarrow> pow2 a \<le> pow2 b"
  by (simp add: pow2_powr)

lemma pow2_0 [simp]: "pow2 0 = 1"
  by (simp add: pow2_def)

lemma binade_eqI:
  assumes "pow2 e \<le> \<bar>x\<bar>" and "\<bar>x\<bar> < pow2 (e + 1)" and "- 1022 \<le> e"
  shows "binade x = e"
proof -
  have "0 < \<bar>x\<bar>" using assms(1) pow2_pos [of e] by linarith
  then have "\<lfloor>log 2 \<bar>x\<bar>\<rfloor> = e"
    using assms(1,2) by (simp add: floor_log_eq_powr_iff pow2_powr)
  then show ?thesis using assms(3) by (simp add: binade_def)
qed

lemma binade_bounds:
  assumes "x \<noteq> 0"
  shows "\<bar>x\<bar> < pow2 (binade x + 1)"
    and "- 1022 < binade x \<Longrightarrow> pow2 (binade x) \<le> \<bar>x\<bar>"
proof -
  let ?k = "\<lfloor>log 2 \<bar>x\<bar>\<rfloor>"
  have pos: "0 < \<bar>x\<bar>" using assms by simp
  have k: "pow2 ?k \<le> \<bar>x\<bar>" "\<bar>x\<bar> < pow2 (?k + 1)"
    using floor_log_eq_powr_iff [of "\<bar>x\<bar>" 2 ?k] pos by (simp_all add: pow2_powr)
  have "pow2 (?k + 1) \<le> pow2 (binade x + 1)"
    by (rule pow2_mono) (simp add: binade_def)
  with k(2) show "\<bar>x\<bar> < pow2 (binade x + 1)" by linarith
  show "pow2 (binade x) \<le> \<bar>x\<bar>" if "- 1022 < binade x"
  proof -
    have "binade x = ?k" using that by (simp add: binade_def max_def split: if_splits)
    with k(1) show ?thesis by simp
  qed
qed

lemma binade_mono:
  assumes "\<bar>x\<bar> \<le> \<bar>y\<bar>" and "x \<noteq> 0"
  shows "binade x \<le> binade y"
proof -
  have "0 < \<bar>x\<bar>" using assms by simp
  then have "log 2 \<bar>x\<bar> \<le> log 2 \<bar>y\<bar>" using assms(1) by simp
  then have "\<lfloor>log 2 \<bar>x\<bar>\<rfloor> \<le> \<lfloor>log 2 \<bar>y\<bar>\<rfloor>" by (rule floor_mono)
  then show ?thesis by (simp add: binade_def)
qed

lemma binade_minus [simp]: "binade (- x) = binade x"
  by (simp add: binade_def)

lemma round_half_even_bounds: "\<lfloor>x\<rfloor> \<le> round_half_even x" "round_half_even x \<le> \<lfloor>x\<rfloor> + 1"
  by (simp_all add: round_half_even_def Let_def)

lemma round_half_even_mono:
  assumes "x \<le> y"
  shows "round_half_even x \<le> round_half_even y"
proof (cases "\<lfloor>x\<rfloor> = \<lfloor>y\<rfloor>")
  case True
  then show ?thesis
    using assms by (auto simp: round_half_even_def Let_def)
next
  case False
  then have "\<lfloor>x\<rfloor> + 1 \<le> \<lfloor>y\<rfloor>"
    using floor_mono [OF assms] by linarith
  then show ?thesis
    using round_half_even_bounds(2) [of x] round_half_even_bounds(1) [of y] by linarith
qed

lemma round_half_even_of_int [simp]: "round_half_even (of_int n) = n"
  by (simp add: round_half_even_def)

lemma round_half_even_numeral [simp]: "round_half_even (numeral n) = numeral n"
  using round_half_even_of_int [of "numeral n"] by simp

lemma round_half_even_near: "\<bar>real_of_int (round_half_even x) - x\<bar> \<le> 1 / 2"
  by (auto simp: round_half_even_def Let_def)

lemma round_half_even_minus: "round_half_even (- x) = - round_half_even x"
proof (cases "x \<in> \<int>")
  case True
  then obtain n where "x = of_int n" by (auto elim: Ints_cases)
  then show ?thesis
    using round_half_even_of_int [of "- n"] by simp
next
  case False
  then have "x \<noteq> real_of_int \<lfloor>x\<rfloor>"
    by (metis Ints_of_int)
  then have fl: "\<lfloor>- x\<rfloor> = - \<lfloor>x\<rfloor> - 1"
    by (simp add: floor_minus ceiling_altdef)
  show ?thesis
    unfolding round_half_even_def Let_def fl
    by (auto simp: algebra_simps)
qed


lemma double_of_minus: "double_of (- x) = - double_of x"
  by (simp add: double_of_def round_half_even_minus)

lemma double_of_evalI:
  assumes "pow2 e \<le> \<bar>x\<bar>" and "\<bar>x\<bar> < pow2 (e + 1)" and "- 1022 \<le> e"
  shows "double_of x = of_int (round_half_even (x / pow2 (e - 52))) * pow2 (e - 52)"
proof -
  have "x \<noteq> 0" using assms(1) pow2_pos [of e] by auto
  then show ?thesis
    by (simp add: double_of_def binade_eqI [OF assms])
qed

lemma pow2_split_53: "pow2 (b + 1) = 2 ^ 53 * pow2 (b - 52)"
proof -
  have "b + 1 = 53 + (b - 52)" by simp
  then have "pow2 (b + 1) = pow2 (53 + (b - 52))" by (rule arg_cong)
  also have "\<dots> = pow2 53 * pow2 (b - 52)" by (rule pow2_add)
  also have "pow2 53 = 2 ^ 53" by (simp add: pow2_def)
  finally show ?thesis .
qed

lemma pow2_split_52: "pow2 b = 2 ^ 52 * pow2 (b - 52)"
proof -
  have "b = 52 + (b - 52)" by simp
  then have "pow2 b = pow2 (52 + (b - 52))" by (rule arg_cong)
  also have "\<dots> = pow2 52 * pow2 (b - 52)" by (rule pow2_add)
  also have "pow2 52 = 2 ^ 52" by (simp add: pow2_def)
  finally show ?thesis .
qed

lemma scaled_le: "(m::int) \<le> n \<Longrightarrow> real_of_int m * pow2 e \<le> real_of_int n * pow2 e"
  by (simp add: mult_right_mono)

lemma double_of_upper:
  assumes "0 < x"
  shows "double_of x \<le> pow2 (binade x + 1)"
proof -
  let ?u = "pow2 (binade x - 52)"
  have "x < pow2 (binade x + 1)"
    using binade_bounds(1) [of x] assms by simp
  then have "x < 2 ^ 53 * ?u"
    by (simp only: pow2_split_53)
  then have "x / ?u \<le> 2 ^ 53"
    by (simp add: field_simps)
  then have "round_half_even (x / ?u) \<le> round_half_even (2 ^ 53)"
    by (rule round_half_even_mono)
  then have "round_half_even (x / ?u) \<le> 2 ^ 53"
    by simp
  then have "of_int (round_half_even (x / ?u)) * ?u \<le> of_int (2 ^ 53) * ?u"
    by (rule scaled_le)
  then show ?thesis
    using assms by (simp add: double_of_def pow2_split_53 [of "binade x"])
qed

lemma double_of_lower:
  assumes "0 < x" and "- 1022 < binade x"
  shows "pow2 (binade x) \<le> double_of x"
proof -
  let ?u = "pow2 (binade x - 52)"
  have "pow2 (binade x) \<le> x"
    using binade_bounds(2) [of x] assms by simp
  then have "2 ^ 52 * ?u \<le> x"
    using pow2_split_52 [of "binade x"] by simp
  then have "2 ^ 52 \<le> x / ?u"
    by (simp add: field_simps)
  then have "round_half_even (2 ^ 52) \<le> round_half_even (x / ?u)"
    by (rule round_half_even_mono)
  then have "2 ^ 52 \<le> round_half_even (x / ?u)"
    by simp
  then have "of_int (2 ^ 52) * ?u \<le> of_int (round_half_even (x / ?u)) * ?u"
    by (rule scaled_le)
  then show ?thesis
    using assms pow2_split_52 [of "binade x"] by (simp add: double_of_def)
qed

lemma double_of_nonneg: "0 \<le> x \<Longrightarrow> 0 \<le> double_of x"
proof -
  assume "0 \<le> x"
  then have "0 \<le> x / pow2 (binade x - 52)" by simp
  then have "0 \<le> round_half_even (x / pow2 (binade x - 52))"
    using round_half_even_mono [of 0 "x / pow2 (binade x - 52)"] round_half_even_of_int [of 0]
    by simp
  then show ?thesis by (simp add: double_of_def)
qed

lemma double_of_mono_pos:
  assumes "0 < x" and "x \<le> y"
  shows "double_of x \<le> double_of y"
proof (cases "binade x = binade y")
  case True
  let ?u = "pow2 (binade y - 52)"
  have "x / ?u \<le> y / ?u" using assms(2) by (simp add: divide_right_mono)
  then have "round_half_even (x / ?u) \<le> round_half_even (y / ?u)"
    by (rule round_half_even_mono)
  then have "of_int (round_half_even (x / ?u)) * ?u \<le> of_int (round_half_even (y / ?u)) * ?u"
    by (rule scaled_le)
  then show ?thesis using assms True by (simp add: double_of_def)
next
  case False
  have "binade x \<le> binade y"
    using binade_mono [of x y] assms by simp
  with False have lt: "binade x + 1 \<le> binade y" by simp
  moreover have "- 1022 \<le> binade x" by (simp add: binade_def)
  ultimately have "- 1022 < binade y" by linarith
  then have "pow2 (binade y) \<le> double_of y"
    using double_of_lower [of y] assms by simp
  moreover have "double_of x \<le> pow2 (binade x + 1)"
    using double_of_upper [OF assms(1)] .
  moreover have "pow2 (binade x + 1) \<le> pow2 (binade y)"
    using lt by (rule pow2_mono)
  ultimately show ?thesis by linarith
qed

lemma double_of_mono:
  assumes "x \<le> y"
  shows "double_of x \<le> double_of y"
proof -
  consider "0 < x" | "x \<le> 0" "0 \<le> y" | "y < 0" by linarith
  then show ?thesis
  proof cases
    case 1
    then show ?thesis using assms by (rule double_of_mono_pos)
  next
    case 2
    have "double_of x \<le> 0"
      using double_of_nonneg [of "- x"] 2(1) by (simp add: double_of_minus)
    moreover have "0 \<le> double_of y"
      using 2(2) by (rule double_of_nonneg)
    ultimately show ?thesis by linarith
  next
    case 3
    have "double_of (- y) \<le> double_of (- x)"
      using double_of_mono_pos [of "- y" "- x"] 3 assms by simp
    then show ?thesis by (simp add: double_of_minus)
  qed
qed

lemma double_of_exact:
  "double_of 0 = 0" "double_of 1 = 1" "double_of 2 = 2" "double_of (1 / 2) = 1 / 2"
proof -
  show "double_of 0 = 0"
    by (simp add: double_of_def)
  show "double_of 1 = 1"
    by (subst double_of_evalI [where e = 0]) (simp_all add: pow2_def round_half_even_def)
  show "double_of 2 = 2"
    by (subst double_of_evalI [where e = 1]) (simp_all add: pow2_def round_half_even_def)
  show "double_of (1 / 2) = 1 / 2"
    by (subst double_of_evalI [where e = "- 1"]) (simp_all add: pow2_def round_half_even_def)
qed

lemma pow2_1024_large: "2 < pow2 1024"
proof -
  have "(2::real) ^ 1 < 2 ^ 1024"
    by (rule power_strict_increasing) simp_all
  then show ?thesis by (simp add: pow2_def)
qed

lemma to_double_between:
  assumes "a \<le> x" and "x \<le> b" and "double_of a = a" and "double_of b = b"
    and "- pow2 1024 < a" and "b < pow2 1024"
  shows "\<exists>y. to_double x = Finite y \<and> a \<le> y \<and> y \<le> b"
proof -
  have "a \<le> double_of x" "double_of x \<le> b"
    using double_of_mono [OF assms(1)] double_of_mono [OF assms(2)] assms(3,4) by simp_all
  then show ?thesis
    using assms(5,6) by (simp add: to_double_def)
qed

lemma to_double_unit: "0 \<le> x \<Longrightarrow> x \<le> 1 \<Longrightarrow> \<exists>y. to_double x = Finite y \<and> 0 \<le> y \<and> y \<le> 1"
  using to_double_between [of 0 x 1] pow2_1024_large by (simp add: double_of_exact)

lemma to_double_one_two: "1 \<le> x \<Longrightarrow> x \<le> 2 \<Longrightarrow> \<exists>y. to_double x = Finite y \<and> 1 \<le> y \<and> y \<le> 2"
  using to_double_between [of 1 x 2] pow2_1024_large by (simp add: double_of_exact)

lemma to_double_half_one:
  "1 / 2 \<le> x \<Longrightarrow> x \<le> 1 \<Longrightarrow> \<exists>y. to_double x = Finite y \<and> 1 / 2 \<le> y \<and> y \<le> 1"
  using to_double_between [of "1 / 2" x 1] pow2_1024_large by (simp add: double_of_exact)

lemma to_double_exact: "to_double 1 = Finite 1" "to_double 2 = Finite 2"
  "to_double (1 / 2) = Finite (1 / 2)" "to_double 0 = Finite 0"
  using pow2_1024_large by (simp_all add: to_double_def double_of_exact)

lemma to_double_not_NaN [simp]: "to_double x \<noteq> NaN"
  by (simp add: to_double_def)

lemma to_double_mono: "x \<le> y \<Longrightarrow> fle (to_double x) (to_double y)"
  using double_of_mono [of x y] pow2_pos [of 1024]
  by (auto simp: to_double_def)

lemma fle_trans: "fle a b \<Longrightarrow> fle b c \<Longrightarrow> fle a c"
  by (cases a; cases b; cases c) auto

lemma fle_Finite_to_double: "fle a b \<Longrightarrow> a \<noteq> NaN"
  by (cases a; cases b) auto

text \<open>Multiplying by 100 and rounding to one decimal both keep the order of floats.\<close>

lemma fmul_100_mono: "x \<le> y \<Longrightarrow> fle (fmul (Finite x) (Finite 100)) (fmul (Finite y) (Finite 100))"
  by (simp add: to_double_mono)

lemma py_round_mono:
  assumes "fle a b"
  shows "fle (py_round a n) (py_round b n)"
proof (cases a)
  case a: (Finite x)
  show ?thesis
  proof (cases b)
    case b: (Finite y)
    have "x \<le> y" using assms a b by simp
    then have "x * 10 ^ n \<le> y * 10 ^ n" by (simp add: mult_right_mono)
    then have "round_half_even (x * 10 ^ n) \<le> round_half_even (y * 10 ^ n)"
      by (rule round_half_even_mono)
    then have "real_of_int (round_half_even (x * 10 ^ n)) / 10 ^ n
        \<le> real_of_int (round_half_even (y * 10 ^ n)) / 10 ^ n"
      by (simp add: divide_right_mono)
    then show ?thesis
      by (simp add: py_round_def a b to_double_mono)
  next
    case PosInf
    then show ?thesis
      by (simp add: py_round_def a to_double_def)
  qed (use assms a in simp_all)
next
  case NegInf
  then show ?thesis
    using assms by (cases b) (simp_all add: py_round_def to_double_def)
next
  case PosInf
  then show ?thesis
    using assms by (cases b) (simp_all add: py_round_def)
qed (use assms in simp)

text \<open>
  Rounding to one decimal lands on the float nearest to a tenth k / 10 that is within half
  a tenth of the value rounded.
\<close>

lemma py_round_tenths:
  "\<exists>k. py_round (Finite v) 1 = to_double (real_of_int k / 10) \<and> \<bar>v * 10 - real_of_int k\<bar> \<le> 1 / 2"
proof -
  have "\<bar>real_of_int (round_half_even (v * 10)) - v * 10\<bar> \<le> 1 / 2"
    by (rule round_half_even_near)
  then show ?thesis
    by (intro exI [of _ "round_half_even (v * 10)"]) (simp add: py_round_def abs_minus_commute)
qed

section \<open>Facts about the normalised skill difference\<close>

lemma math_e_gt_2: "2 < math_e"
  by (simp add: math_e_def)

lemma correctly_rounded_pow_unit: "pow_in_unit_interval correctly_rounded_pow"
  unfolding pow_in_unit_interval_def
proof (intro allI impI)
  fix y :: real
  assume "y < 0"
  have "math_e powr y < math_e powr 0"
    using \<open>y < 0\<close> math_e_gt_2 by (intro powr_less_mono) simp_all
  then have "0 \<le> math_e powr y" "math_e powr y \<le> 1"
    using math_e_gt_2 by simp_all
  then obtain p where "to_double (math_e powr y) = Finite p" "0 \<le> p" "p \<le> 1"
    using to_double_unit by blast
  then show "\<exists>p. correctly_rounded_pow y = Inr (Finite p) \<and> 0 \<le> p \<and> p \<le> 1"
    by (simp add: correctly_rounded_pow_def)
qed

lemma fabs_cases: "(\<exists>d. fabs a = Finite d \<and> 0 \<le> d) \<or> fabs a = PosInf \<or> (fabs a = NaN \<and> a = NaN)"
  by (cases a) simp_all

lemma one_over_one_plus:
  assumes "0 \<le> p" and "p \<le> 1"
  shows "\<exists>v. fdiv (Finite 1) (fadd (Finite 1) (Finite p)) = Inr (Finite v) \<and> 1 / 2 \<le> v \<and> v \<le> 1"
proof -
  obtain q where q: "to_double (1 + p) = Finite q" "1 \<le> q" "q \<le> 2"
    using to_double_one_two [of "1 + p"] assms by auto
  then have "1 / 2 \<le> 1 / q" "1 / q \<le> 1"
    by (simp_all add: field_simps)
  then obtain v where "to_double (1 / q) = Finite v" "1 / 2 \<le> v" "v \<le> 1"
    using to_double_half_one by blast
  then show ?thesis
    using q by simp
qed

lemma normalized_delta_range:
  assumes "pow_in_unit_interval libm"
  shows "(fsub skill_1 skill_2 = NaN \<and> normalized_delta libm skill_1 skill_2 = Inr NaN)
       \<or> (fsub skill_1 skill_2 \<noteq> NaN
           \<and> (\<exists>v. normalized_delta libm skill_1 skill_2 = Inr (Finite v) \<and> 1 / 2 \<le> v \<and> v \<le> 1))"
proof -
  consider d where "fabs (fsub skill_1 skill_2) = Finite d" "0 < d"
    | "fabs (fsub skill_1 skill_2) = Finite 0"
    | "fabs (fsub skill_1 skill_2) = PosInf"
    | "fabs (fsub skill_1 skill_2) = NaN" "fsub skill_1 skill_2 = NaN"
    using fabs_cases [of "fsub skill_1 skill_2"] by (metis less_eq_real_def)
  then show ?thesis
  proof cases
    case 1
    then have nn: "fsub skill_1 skill_2 \<noteq> NaN" by auto
    obtain p where p: "libm (- d) = Inr (Finite p)" "0 \<le> p" "p \<le> 1"
      using assms 1(2) unfolding pow_in_unit_interval_def by (metis neg_less_0_iff_less)
    show ?thesis
      using one_over_one_plus [OF p(2,3)] 1 p(1) nn
      by (simp add: normalized_delta_def float_pow_e_def)
  next
    case 2
    then have nn: "fsub skill_1 skill_2 \<noteq> NaN" by auto
    show ?thesis
      using one_over_one_plus [of 1] 2 nn
      by (simp add: normalized_delta_def float_pow_e_def to_double_exact)
  next
    case 3
    then have nn: "fsub skill_1 skill_2 \<noteq> NaN" by auto
    show ?thesis
      using one_over_one_plus [of 0] 3 nn
      by (simp add: normalized_delta_def float_pow_e_def to_double_exact)
  next
    case 4
    then show ?thesis
      by (simp add: normalized_delta_def float_pow_e_def)
  qed
qed

lemma normalized_delta_defined:
  "pow_in_unit_interval libm \<Longrightarrow> \<exists>nd. normalized_delta libm skill_1 skill_2 = Inr nd"
  using normalized_delta_range [of libm skill_1 skill_2] by blast

lemma fsub_self: "fsub (Finite x) (Finite x) = Finite 0" "fsub PosInf PosInf = NaN"
  "fsub NegInf NegInf = NaN" "fsub NaN NaN = NaN"
  by (simp_all add: fsub_def to_double_exact)

lemma normalized_delta_equal_skill:
  "normalized_delta libm (Finite x) (Finite x) = Inr (Finite (1 / 2))"
  by (simp add: normalized_delta_def float_pow_e_def fsub_self to_double_exact)

lemma normalized_delta_self_defined: "\<exists>nd. normalized_delta libm s s = Inr nd"
  by (cases s) (simp_all add: normalized_delta_def float_pow_e_def fsub_self to_double_exact)

lemma flt_below_half: "flt r (Finite (1 / 2)) \<Longrightarrow> 1 / 2 \<le> v \<Longrightarrow> flt r (Finite v)"
  by (cases r) simp_all

section \<open>Facts about the table and the fight\<close>

lemma select_id_empty: "select_id bid tbl = [] \<longleftrightarrow> bid \<notin> boxer_id ` set tbl"
  by (auto simp: select_id_def filter_empty_conv)

lemma update_boxer_stats_present:
  assumes "bid \<in> boxer_id ` set tbl" and "result \<in> {''win'', ''loss''}"
  shows "\<exists>tbl'. update_boxer_stats bid result tbl = Inr tbl'"
  using assms by (auto simp: update_boxer_stats_def select_id_empty)

lemma update_boxer_stats_ids:
  "update_boxer_stats bid result tbl = Inr tbl' \<Longrightarrow> map boxer_id tbl' = map boxer_id tbl"
  by (auto simp: update_boxer_stats_def split: if_splits)

lemma update_boxer_stats_preserves_membership:
  "update_boxer_stats bid result tbl = Inr tbl' \<Longrightarrow> boxer_id ` set tbl' = boxer_id ` set tbl"
  using update_boxer_stats_ids [of bid result tbl tbl'] by (metis list.set_map)

lemma fight_two_draw:
  assumes "ring w = [b1, b2]"
    and "get_fighting_skill b1 = Inr s1" and "get_fighting_skill b2 = Inr s2"
    and "normalized_delta (libm_pow w) s1 s2 = Inr nd"
    and "random_org w (requests w) = Body_number r"
  shows "fight w =
    (let winner = (if flt r nd then b1 else b2);
         loser = (if flt r nd then b2 else b1);
         w1 = w\<lparr>requests := requests w + 1, calls := calls w @ [Call_get_random]\<rparr>
     in case call_update_boxer_stats (boxer_id winner) ''win'' w1 of
          (Inl e, w2) \<Rightarrow> (Inl e, w2)
        | (Inr u, w2) \<Rightarrow>
            (case call_update_boxer_stats (boxer_id loser) ''loss'' w2 of
               (Inl e, w3) \<Rightarrow> (Inl e, w3)
             | (Inr u', w3) \<Rightarrow> (Inr (name winner), clear_ring w3)))"
  using assms
  by (simp add: fight_def get_boxers_def call_get_random_def get_random_def Let_def)

lemma fight_two_success:
  assumes ring: "ring w = [b1, b2]"
    and s1: "get_fighting_skill b1 = Inr s1" and s2: "get_fighting_skill b2 = Inr s2"
    and nd: "normalized_delta (libm_pow w) s1 s2 = Inr nd"
    and draw: "random_org w (requests w) = Body_number r"
    and winner: "winner = (if flt r nd then b1 else b2)"
    and loser: "loser = (if flt r nd then b2 else b1)"
    and t1: "update_boxer_stats (boxer_id winner) ''win'' (boxers w) = Inr tbl1"
    and t2: "update_boxer_stats (boxer_id loser) ''loss'' tbl1 = Inr tbl2"
  shows "fight w =
          (Inr (name winner),
           w\<lparr>ring := [], boxers := tbl2, requests := requests w + 1,
             calls := calls w @ [Call_get_random,
               Call_update_boxer_stats (boxer_id winner) ''win'',
               Call_update_boxer_stats (boxer_id loser) ''loss'']\<rparr>)"
  using t1 t2 unfolding fight_two_draw [OF ring s1 s2 nd draw] winner loser
  by (simp add: call_update_boxer_stats_def clear_ring_def ring Let_def)

lemma fight_two_first_fails:
  assumes ring: "ring w = [b1, b2]"
    and s1: "get_fighting_skill b1 = Inr s1" and s2: "get_fighting_skill b2 = Inr s2"
    and nd: "normalized_delta (libm_pow w) s1 s2 = Inr nd"
    and draw: "random_org w (requests w) = Body_number r"
    and winner: "winner = (if flt r nd then b1 else b2)"
    and t1: "update_boxer_stats (boxer_id winner) ''win'' (boxers w) = Inl e"
  shows "fight w =
          (Inl e,
           w\<lparr>requests := requests w + 1,
             calls := calls w @ [Call_get_random,
               Call_update_boxer_stats (boxer_id winner) ''win'']\<rparr>)"
  using t1 unfolding fight_two_draw [OF ring s1 s2 nd draw] winner
  by (simp add: call_update_boxer_stats_def Let_def)

lemma fight_two_second_fails:
  assumes ring: "ring w = [b1, b2]"
    and s1: "get_fighting_skill b1 = Inr s1" and s2: "get_fighting_skill b2 = Inr s2"
    and nd: "normalized_delta (libm_pow w) s1 s2 = Inr nd"
    and draw: "random_org w (requests w) = Body_number r"
    and winner: "winner = (if flt r nd then b1 else b2)"
    and loser: "loser = (if flt r nd then b2 else b1)"
    and t1: "update_boxer_stats (boxer_id winner) ''win'' (boxers w) = Inr tbl1"
    and t2: "update_boxer_stats (boxer_id loser) ''loss'' tbl1 = Inl e"
  shows "fight w =
          (Inl e,
           w\<lparr>boxers := tbl1, requests := requests w + 1,
             calls := calls w @ [Call_get_random,
               Call_update_boxer_stats (boxer_id winner) ''win'',
               Call_update_boxer_stats (boxer_id loser) ''loss'']\<rparr>)"
  using t1 t2 unfolding fight_two_draw [OF ring s1 s2 nd draw] winner loser
  by (simp add: call_update_boxer_stats_def Let_def)

lemma ring_after_fight: "ring (snd (fight w)) = ring w \<or> ring (snd (fight w)) = []"
  by (auto simp: fight_def get_boxers_def call_get_random_def call_update_boxer_stats_def
      clear_ring_def Let_def split: list.splits sum.splits prod.splits)


section \<open>The sample boxers' skills\<close>

lemma double_of_abs_upper:
  assumes "x \<noteq> 0"
  shows "\<bar>double_of x\<bar> \<le> pow2 (binade x + 1)"
proof (cases "0 < x")
  case True
  then show ?thesis
    using double_of_upper [of x] double_of_nonneg [of x] by simp
next
  case False
  then have "0 < - x" using assms by simp
  then show ?thesis
    using double_of_upper [of "- x"] double_of_nonneg [of "- x"] by (simp add: double_of_minus)
qed

lemma to_double_evalI:
  assumes "pow2 e \<le> \<bar>x\<bar>" and "\<bar>x\<bar> < pow2 (e + 1)" and "- 1022 \<le> e" and "e \<le> 1022"
  shows "to_double x = Finite (of_int (round_half_even (x / pow2 (e - 52))) * pow2 (e - 52))"
proof -
  have b: "binade x = e"
    using assms(1-3) by (rule binade_eqI)
  have "x \<noteq> 0"
    using assms(1) pow2_pos [of e] by auto
  then have "\<bar>double_of x\<bar> \<le> pow2 (e + 1)"
    using double_of_abs_upper [of x] b by simp
  moreover have "pow2 (e + 1) \<le> pow2 1023"
    using assms(4) by (intro pow2_mono) simp
  moreover have "pow2 1023 < pow2 1024"
    by (simp add: pow2_def)
  ultimately have "\<bar>double_of x\<bar> < pow2 1024"
    by linarith
  then have "\<not> pow2 1024 \<le> double_of x" "\<not> double_of x \<le> - pow2 1024"
    by linarith+
  then have "to_double x = Finite (double_of x)"
    by (simp add: to_double_def)
  then show ?thesis
    by (simp only: double_of_evalI [OF assms(1-3)])
qed

lemma get_fighting_skill_evalI:
  assumes "reach b = Finite r"
    and "to_double (r / 10) = Finite t"
    and "to_double (real_of_int (weight b * int (length (name b)))) = Finite p"
    and "to_double (p + t) = Finite s"
    and "to_double (s + real_of_int (age_modifier (age b))) = Finite s'"
  shows "get_fighting_skill b = Inr (Finite s')"
  using assms by (simp add: get_fighting_skill_def int_to_float_def)

lemma skill_mike_tyson: "get_fighting_skill mike_tyson = Inr (Finite (4853464227328819 / 2 ^ 41))"
proof (rule get_fighting_skill_evalI
    [where r = 71 and t = "3996944669291315 / 2 ^ 49" and p = "2200" and s = "4853464227328819 / 2 ^ 41"])
  show "reach mike_tyson = Finite 71"
    by (simp add: mike_tyson_def)
  show "to_double (71 / 10) = Finite (3996944669291315 / 2 ^ 49)"
    by (subst to_double_evalI [where e = "2"]) (simp_all add: pow2_def round_half_even_def)
  show "to_double (real_of_int (weight mike_tyson * int (length (name mike_tyson)))) = Finite (2200)"
    by (simp add: mike_tyson_def, subst to_double_evalI [where e = "11"])
      (simp_all add: pow2_def round_half_even_def)
  show "to_double (2200 + 3996944669291315 / 2 ^ 49) = Finite (4853464227328819 / 2 ^ 41)"
    by (subst to_double_evalI [where e = "11"]) (simp_all add: pow2_def round_half_even_def)
  show "to_double (4853464227328819 / 2 ^ 41 + real_of_int (age_modifier (age mike_tyson))) = Finite (4853464227328819 / 2 ^ 41)"
    by (simp add: mike_tyson_def age_modifier_def, subst to_double_evalI [where e = "11"])
      (simp_all add: pow2_def round_half_even_def)
qed

lemma skill_muhammad_ali: "get_fighting_skill muhammad_ali = Inr (Finite (2845316190358733 / 2 ^ 40))"
proof (rule get_fighting_skill_evalI
    [where r = 78 and t = "8782019273372467 / 2 ^ 50" and p = "2580" and s = "2845316190358733 / 2 ^ 40"])
  show "reach muhammad_ali = Finite 78"
    by (simp add: muhammad_ali_def)
  show "to_double (78 / 10) = Finite (8782019273372467 / 2 ^ 50)"
    by (subst to_double_evalI [where e = "2"]) (simp_all add: pow2_def round_half_even_def)
  show "to_double (real_of_int (weight muhammad_ali * int (length (name muhammad_ali)))) = Finite (2580)"
    by (simp add: muhammad_ali_def, subst to_double_evalI [where e = "11"])
      (simp_all add: pow2_def round_half_even_def)
  show "to_double (2580 + 8782019273372467 / 2 ^ 50) = Finite (2845316190358733 / 2 ^ 40)"
    by (subst to_double_evalI [where e = "11"]) (simp_all add: pow2_def round_half_even_def)
  show "to_double (2845316190358733 / 2 ^ 40 + real_of_int (age_modifier (age muhammad_ali))) = Finite (2845316190358733 / 2 ^ 40)"
    by (simp add: muhammad_ali_def age_modifier_def, subst to_double_evalI [where e = "11"])
      (simp_all add: pow2_def round_half_even_def)
qed

lemma skill_evander: "get_fighting_skill evander = Inr (Finite (4853464227328819 / 2 ^ 41))"
proof (rule get_fighting_skill_evalI
    [where r = 71 and t = "3996944669291315 / 2 ^ 49" and p = "2200" and s = "4853464227328819 / 2 ^ 41"])
  show "reach evander = Finite 71"
    by (simp add: evander_def)
  show "to_double (71 / 10) = Finite (3996944669291315 / 2 ^ 49)"
    by (subst to_double_evalI [where e = "2"]) (simp_all add: pow2_def round_half_even_def)
  show "to_double (real_of_int (weight evander * int (length (name evander)))) = Finite (2200)"
    by (simp add: evander_def, subst to_double_evalI [where e = "11"])
      (simp_all add: pow2_def round_half_even_def)
  show "to_double (2200 + 3996944669291315 / 2 ^ 49) = Finite (4853464227328819 / 2 ^ 41)"
    by (subst to_double_evalI [where e = "11"]) (simp_all add: pow2_def round_half_even_def)
  show "to_double (4853464227328819 / 2 ^ 41 + real_of_int (age_modifier (age evander))) = Finite (4853464227328819 / 2 ^ 41)"
    by (simp add: evander_def age_modifier_def, subst to_double_evalI [where e = "11"])
      (simp_all add: pow2_def round_half_even_def)
qed

lemma skill_al: "get_fighting_skill al = Inr (Finite (8975533319861043 / 2 ^ 45))"
proof (rule get_fighting_skill_evalI
    [where r = 51 and t = "2871044762448691 / 2 ^ 49" and p = "250" and s = "8975533319861043 / 2 ^ 45"])
  show "reach al = Finite 51"
    by (simp add: al_def)
  show "to_double (51 / 10) = Finite (2871044762448691 / 2 ^ 49)"
    by (subst to_double_evalI [where e = "2"]) (simp_all add: pow2_def round_half_even_def)
  show "to_double (real_of_int (weight al * int (length (name al)))) = Finite (250)"
    by (simp add: al_def, subst to_double_evalI [where e = "7"])
      (simp_all add: pow2_def round_half_even_def)
  show "to_double (250 + 2871044762448691 / 2 ^ 49) = Finite (8975533319861043 / 2 ^ 45)"
    by (subst to_double_evalI [where e = "7"]) (simp_all add: pow2_def round_half_even_def)
  show "to_double (8975533319861043 / 2 ^ 45 + real_of_int (age_modifier (age al))) = Finite (8975533319861043 / 2 ^ 45)"
    by (simp add: al_def age_modifier_def, subst to_double_evalI [where e = "7"])
      (simp_all add: pow2_def round_half_even_def)
qed

lemma skill_bo: "get_fighting_skill bo = Inr (Finite (2243883329965261 / 2 ^ 43))"
proof (rule get_fighting_skill_evalI
    [where r = 61 and t = "3433994715870003 / 2 ^ 49" and p = "250" and s = "2252679422987469 / 2 ^ 43"])
  show "reach bo = Finite 61"
    by (simp add: bo_def)
  show "to_double (61 / 10) = Finite (3433994715870003 / 2 ^ 49)"
    by (subst to_double_evalI [where e = "2"]) (simp_all add: pow2_def round_half_even_def)
  show "to_double (real_of_int (weight bo * int (length (name bo)))) = Finite (250)"
    by (simp add: bo_def, subst to_double_evalI [where e = "7"])
      (simp_all add: pow2_def round_half_even_def)
  show "to_double (250 + 3433994715870003 / 2 ^ 49) = Finite (2252679422987469 / 2 ^ 43)"
    by (subst to_double_evalI [where e = "8"]) (simp_all add: pow2_def round_half_even_def)
  show "to_double (2252679422987469 / 2 ^ 43 + real_of_int (age_modifier (age bo))) = Finite (2243883329965261 / 2 ^ 43)"
    by (simp add: bo_def age_modifier_def, subst to_double_evalI [where e = "7"])
      (simp_all add: pow2_def round_half_even_def)
qed

lemma skill_infinite_reach:
  "get_fighting_skill ann = Inr PosInf" "get_fighting_skill bob = Inr PosInf"
proof -
  have "to_double 450 = Finite 450"
    by (subst to_double_evalI [where e = 8]) (simp_all add: pow2_def round_half_even_def)
  then show "get_fighting_skill ann = Inr PosInf"
    by (simp add: get_fighting_skill_def int_to_float_def ann_def)
  have "to_double 600 = Finite 600"
    by (subst to_double_evalI [where e = 9]) (simp_all add: pow2_def round_half_even_def)
  then show "get_fighting_skill bob = Inr PosInf"
    by (simp add: get_fighting_skill_def int_to_float_def bob_def)
qed

text \<open>
  Bounds on powers of \<^verbatim>\<open>math.e\<close> with a negative exponent, through powers of 2.
\<close>

lemma ln_2_ge_half: "1 / 2 \<le> ln (2::real)"
proof -
  have "exp (1 / 2 :: real) \<le> 1 + 1 / 2 + (1 / 2)\<^sup>2"
    by (rule exp_bound) simp_all
  then have "exp (1 / 2 :: real) \<le> 2"
    by (simp add: power2_eq_square)
  then show ?thesis
    by (subst ln_ge_iff) simp_all
qed

lemma math_e_powr_le_two_powr: "y \<le> 0 \<Longrightarrow> math_e powr y \<le> 2 powr y"
  using math_e_gt_2 by (intro powr_mono2') simp_all

lemma math_e_powr_decay:
  assumes "0 \<le> t"
  shows "math_e powr (- t) \<le> 1 / (1 + t / 2)"
proof -
  have "math_e powr (- t) \<le> 2 powr (- t)"
    using assms by (intro math_e_powr_le_two_powr) simp
  also have "2 powr (- t) = exp (- t * ln 2)"
    by (simp add: powr_def)
  also have "\<dots> \<le> exp (- (t / 2))"
  proof -
    have "t * (1 / 2) \<le> t * ln 2"
      using assms ln_2_ge_half by (rule mult_left_mono [rotated])
    then show ?thesis by simp
  qed
  also have "exp (- (t / 2)) = 1 / exp (t / 2)"
    by (simp add: exp_minus inverse_eq_divide)
  also have "\<dots> \<le> 1 / (1 + t / 2)"
    using assms exp_ge_add_one_self [of "t / 2"]
    by (intro divide_left_mono) (simp_all add: add_pos_nonneg)
  finally show ?thesis .
qed

lemma math_e_powr_tiny:
  assumes "y \<le> - 54"
  shows "math_e powr y \<le> 1 / 2 ^ 54"
proof -
  have "math_e powr y \<le> 2 powr y"
    using assms by (intro math_e_powr_le_two_powr) simp
  also have "\<dots> \<le> 2 powr (- 54)"
    using assms by (intro powr_mono) simp_all
  also have "2 powr (- 54) = (1 / 2 ^ 54 :: real)"
    by (simp add: powr_minus inverse_eq_divide)
  finally show ?thesis .
qed

lemma to_double_between':
  assumes "a \<le> x" and "x \<le> b" and "double_of a = a'" and "double_of b = b'"
    and "- pow2 1024 < a'" and "b' < pow2 1024"
  shows "\<exists>y. to_double x = Finite y \<and> a' \<le> y \<and> y \<le> b'"
proof -
  have "a' \<le> double_of x" "double_of x \<le> b'"
    using double_of_mono [OF assms(1)] double_of_mono [OF assms(2)] assms(3,4) by simp_all
  then show ?thesis
    using assms(5,6) by (simp add: to_double_def)
qed

section \<open>The sample fights' comparison values\<close>

lemma double_of_fixed:
  "double_of (1 - 1 / 2 ^ 47) = 1 - 1 / 2 ^ 47"
  "double_of (2 - 1 / 2 ^ 47) = 2 - 1 / 2 ^ 47"
  "double_of (1 / 2 + 1 / 2 ^ 50) = 1 / 2 + 1 / 2 ^ 50"
  "double_of (1 / 2 ^ 54) = 1 / 2 ^ 54"
  "double_of (1 + 1 / 2 ^ 54) = 1"
proof -
  show "double_of (1 - 1 / 2 ^ 47) = 1 - 1 / 2 ^ 47"
    by (subst double_of_evalI [where e = "- 1"]) (simp_all add: pow2_def round_half_even_def)
  show "double_of (2 - 1 / 2 ^ 47) = 2 - 1 / 2 ^ 47"
    by (subst double_of_evalI [where e = 0]) (simp_all add: pow2_def round_half_even_def)
  show "double_of (1 / 2 + 1 / 2 ^ 50) = 1 / 2 + 1 / 2 ^ 50"
    by (subst double_of_evalI [where e = "- 1"]) (simp_all add: pow2_def round_half_even_def)
  show "double_of (1 / 2 ^ 54) = 1 / 2 ^ 54"
    by (subst double_of_evalI [where e = "- 54"]) (simp_all add: pow2_def round_half_even_def)
  show "double_of (1 + 1 / 2 ^ 54) = 1"
    by (subst double_of_evalI [where e = 0]) (simp_all add: pow2_def round_half_even_def)
qed

lemma normalized_delta_evalI:
  assumes "fsub s1 s2 = Finite d" and "d \<noteq> 0"
    and "libm (- \<bar>d\<bar>) = Inr (Finite q)"
    and "to_double (1 + q) = Finite q2" and "q2 \<noteq> 0"
    and "to_double (1 / q2) = Finite v"
  shows "normalized_delta libm s1 s2 = Inr (Finite v)"
  using assms by (simp add: normalized_delta_def float_pow_e_def)

text \<open>
  Al against Bo: the skills differ by 2^-45, and the comparison value is above one half.
\<close>

lemma normalized_delta_al_bo:
  "\<exists>v. normalized_delta correctly_rounded_pow
          (Finite (8975533319861043 / 2 ^ 45)) (Finite (2243883329965261 / 2 ^ 43))
        = Inr (Finite v) \<and> 1 / 2 < v"
proof -
  have diff: "fsub (Finite (8975533319861043 / 2 ^ 45)) (Finite (2243883329965261 / 2 ^ 43))
      = Finite (- (1 / 2 ^ 45))"
    by (simp add: fsub_def, subst to_double_evalI [where e = "- 45"])
      (simp_all add: pow2_def round_half_even_def)
  have "math_e powr (- (1 / 2 ^ 45)) \<le> 1 / (1 + (1 / 2 ^ 45) / 2)"
    by (rule math_e_powr_decay) simp
  also have "\<dots> \<le> 1 - 1 / 2 ^ 47"
    by simp
  finally have up: "math_e powr (- (1 / 2 ^ 45)) \<le> 1 - 1 / 2 ^ 47" .
  have "0 \<le> math_e powr (- (1 / 2 ^ 45))"
    by simp
  then obtain q where q: "to_double (math_e powr (- (1 / 2 ^ 45))) = Finite q"
    "0 \<le> q" "q \<le> 1 - 1 / 2 ^ 47"
    using to_double_between' [OF _ up double_of_exact(1) double_of_fixed(1)] pow2_1024_large
    by auto
  have "1 \<le> 1 + q" "1 + q \<le> 2 - 1 / 2 ^ 47"
    using q(2,3) by simp_all
  then obtain q2 where q2: "to_double (1 + q) = Finite q2" "1 \<le> q2" "q2 \<le> 2 - 1 / 2 ^ 47"
    using to_double_between' [OF _ _ double_of_exact(2) double_of_fixed(2), of "1 + q"]
      pow2_1024_large
    by auto
  have "1 / (2 - 1 / 2 ^ 47) \<le> 1 / q2"
    using q2(2,3) by (intro divide_left_mono) simp_all
  moreover have "1 / 2 + 1 / 2 ^ 50 \<le> 1 / (2 - 1 / 2 ^ 47 :: real)"
    by simp
  ultimately have lo: "1 / 2 + 1 / 2 ^ 50 \<le> 1 / q2"
    by linarith
  have hi: "1 / q2 \<le> 1"
    using q2(2) by simp
  obtain v where v: "to_double (1 / q2) = Finite v" "1 / 2 + 1 / 2 ^ 50 \<le> v"
    using to_double_between' [OF lo hi double_of_fixed(3) double_of_exact(2)] pow2_1024_large
    by auto
  have "1 / 2 < v"
    using v(2) by simp
  moreover have "correctly_rounded_pow (- \<bar>- (1 / 2 ^ 45)\<bar>) = Inr (Finite q)"
    using q(1) by (simp add: correctly_rounded_pow_def)
  then have "normalized_delta correctly_rounded_pow
      (Finite (8975533319861043 / 2 ^ 45)) (Finite (2243883329965261 / 2 ^ 43)) = Inr (Finite v)"
    using q2(2) by (intro normalized_delta_evalI [OF diff _ _ q2(1) _ v(1)]) simp_all
  ultimately show ?thesis by blast
qed

text \<open>
  Mike Tyson against Muhammad Ali: the skills differ by about 380.7, the power is below
  2^-54 and vanishes when added to 1, and the comparison value is exactly 1.
\<close>

lemma normalized_delta_tyson_ali:
  "normalized_delta correctly_rounded_pow
     (Finite (4853464227328819 / 2 ^ 41)) (Finite (2845316190358733 / 2 ^ 40))
   = Inr (Finite 1)"
proof -
  have diff: "fsub (Finite (4853464227328819 / 2 ^ 41)) (Finite (2845316190358733 / 2 ^ 40))
      = Finite (- (837168153388647 / 2 ^ 41))"
    by (simp add: fsub_def, subst to_double_evalI [where e = 8])
      (simp_all add: pow2_def round_half_even_def)
  have up: "math_e powr (- (837168153388647 / 2 ^ 41)) \<le> 1 / 2 ^ 54"
    by (rule math_e_powr_tiny) simp
  have "0 \<le> math_e powr (- (837168153388647 / 2 ^ 41))"
    by simp
  then obtain q where q: "to_double (math_e powr (- (837168153388647 / 2 ^ 41))) = Finite q"
    "0 \<le> q" "q \<le> 1 / 2 ^ 54"
    using to_double_between' [OF _ up double_of_exact(1) double_of_fixed(4)] pow2_1024_large
    by auto
  have "1 \<le> 1 + q" "1 + q \<le> 1 + 1 / 2 ^ 54"
    using q(2,3) by simp_all
  then obtain q2 where "to_double (1 + q) = Finite q2" "1 \<le> q2" "q2 \<le> 1"
    using to_double_between' [OF _ _ double_of_exact(2) double_of_fixed(5), of "1 + q"]
      pow2_1024_large
    by auto
  then have one: "to_double (1 + q) = Finite 1"
    by simp
  have "correctly_rounded_pow (- \<bar>- (837168153388647 / 2 ^ 41)\<bar>) = Inr (Finite q)"
    using q(1) by (simp add: correctly_rounded_pow_def)
  then show ?thesis
    by (intro normalized_delta_evalI [OF diff _ _ one]) (simp_all add: to_double_exact)
qed

lemma normalized_delta_infinite: "normalized_delta libm PosInf PosInf = Inr NaN"
  by (simp add: normalized_delta_def float_pow_e_def fsub_self)

section \<open>Weight classes\<close>

text \<open>
  Claim C5. For every integer weight, \<^verbatim>\<open>get_weight_class\<close> returns HEAVYWEIGHT from
  203 up, MIDDLEWEIGHT on 166..202, LIGHTWEIGHT on 133..165, FEATHERWEIGHT on 125..132 and
  raises the invalid-weight \<^verbatim>\<open>ValueError\<close> below 125; the boundaries 125, 133, 166
  and 203 open their class, and 124, 132, 165 and 202 fall one class lower.
\<close>

theorem get_weight_class_ranges:
  "(203 \<le> w \<longrightarrow> get_weight_class w = Inr ''HEAVYWEIGHT'')
   \<and> (166 \<le> w \<and> w \<le> 202 \<longrightarrow> get_weight_class w = Inr ''MIDDLEWEIGHT'')
   \<and> (133 \<le> w \<and> w \<le> 165 \<longrightarrow> get_weight_class w = Inr ''LIGHTWEIGHT'')
   \<and> (125 \<le> w \<and> w \<le> 132 \<longrightarrow> get_weight_class w = Inr ''FEATHERWEIGHT'')
   \<and> (w < 125 \<longrightarrow> get_weight_class w = Inl (ValueError (Invalid_weight w)))
   \<and> get_weight_class 203 = Inr ''HEAVYWEIGHT''
   \<and> get_weight_class 202 = Inr ''MIDDLEWEIGHT''
   \<and> get_weight_class 166 = Inr ''MIDDLEWEIGHT''
   \<and> get_weight_class 165 = Inr ''LIGHTWEIGHT''
   \<and> get_weight_class 133 = Inr ''LIGHTWEIGHT''
   \<and> get_weight_class 132 = Inr ''FEATHERWEIGHT''
   \<and> get_weight_class 125 = Inr ''FEATHERWEIGHT''
   \<and> get_weight_class 124 = Inl (ValueError (Invalid_weight 124))"
  by (simp add: get_weight_class_def)

theorem get_weight_class_ranges_witness:
  "get_weight_class 220 = Inr ''HEAVYWEIGHT''
   \<and> get_weight_class 180 = Inr ''MIDDLEWEIGHT''
   \<and> get_weight_class 150 = Inr ''LIGHTWEIGHT''
   \<and> get_weight_class 130 = Inr ''FEATHERWEIGHT''
   \<and> get_weight_class 120 = Inl (ValueError (Invalid_weight 120))"
  using get_weight_class_ranges [of 220] get_weight_class_ranges [of 180]
    get_weight_class_ranges [of 150] get_weight_class_ranges [of 130]
    get_weight_class_ranges [of 120]
  by simp

section \<open>Fighting skill\<close>

lemma double_of_overflow_threshold:
  "double_of (real_of_int (2 ^ 1024 - 2 ^ 970)) = pow2 1024"
  "double_of (real_of_int (2 ^ 1024 - 2 ^ 970 - 1)) = pow2 1024 - 2 ^ 971"
proof -
  show "double_of (real_of_int (2 ^ 1024 - 2 ^ 970)) = pow2 1024"
    by (subst double_of_evalI [where e = 1023]) (simp_all add: pow2_def round_half_even_def)
  show "double_of (real_of_int (2 ^ 1024 - 2 ^ 970 - 1)) = pow2 1024 - 2 ^ 971"
    by (subst double_of_evalI [where e = 1023]) (simp_all add: pow2_def round_half_even_def)
qed

lemma int_to_float_cases:
  "\<bar>n\<bar> < 2 ^ 1024 - 2 ^ 970 \<Longrightarrow> int_to_float n = Inr (Finite (double_of (real_of_int n)))"
  "2 ^ 1024 - 2 ^ 970 \<le> \<bar>n\<bar> \<Longrightarrow> int_to_float n = Inl (OverflowError Int_too_large)"
proof -
  define T :: int where "T = 2 ^ 1024 - 2 ^ 970"
  have dT: "double_of (real_of_int T) = pow2 1024"
    "double_of (real_of_int (T - 1)) = pow2 1024 - 2 ^ 971"
    unfolding T_def by (rule double_of_overflow_threshold)+
  have gap: "pow2 1024 - 2 ^ 971 < pow2 1024"
    by simp
  show "int_to_float n = Inr (Finite (double_of (real_of_int n)))" if "\<bar>n\<bar> < 2 ^ 1024 - 2 ^ 970"
  proof -
    have "\<bar>n\<bar> < T" using that by (simp only: T_def)
    then have "n \<le> T - 1" "- (T - 1) \<le> n"
      by linarith+
    then have "real_of_int n \<le> real_of_int (T - 1)" "real_of_int (- (T - 1)) \<le> real_of_int n"
      by (simp_all only: of_int_le_iff)
    then have "double_of (real_of_int n) \<le> double_of (real_of_int (T - 1))"
      "double_of (- real_of_int (T - 1)) \<le> double_of (real_of_int n)"
      by (simp_all only: double_of_mono of_int_minus)
    then have "double_of (real_of_int n) \<le> pow2 1024 - 2 ^ 971"
      "- (pow2 1024 - 2 ^ 971) \<le> double_of (real_of_int n)"
      by (simp_all only: dT double_of_minus)
    then have "\<not> pow2 1024 \<le> double_of (real_of_int n)"
      "\<not> double_of (real_of_int n) \<le> - pow2 1024"
      using gap by linarith+
    then show ?thesis
      by (simp add: int_to_float_def to_double_def)
  qed
  show "int_to_float n = Inl (OverflowError Int_too_large)" if "2 ^ 1024 - 2 ^ 970 \<le> \<bar>n\<bar>"
  proof -
    have "T \<le> \<bar>n\<bar>" using that by (simp only: T_def)
    then consider "T \<le> n" | "n \<le> - T"
      by linarith
    then show ?thesis
    proof cases
      case 1
      then have "real_of_int T \<le> real_of_int n"
        by (simp only: of_int_le_iff)
      then have "double_of (real_of_int T) \<le> double_of (real_of_int n)"
        by (rule double_of_mono)
      then have "pow2 1024 \<le> double_of (real_of_int n)"
        by (simp only: dT)
      then show ?thesis
        by (simp add: int_to_float_def to_double_def)
    next
      case 2
      then have "real_of_int n \<le> real_of_int (- T)"
        by (simp only: of_int_le_iff)
      then have "double_of (real_of_int n) \<le> double_of (- real_of_int T)"
        by (simp only: double_of_mono of_int_minus)
      then have "double_of (real_of_int n) \<le> - pow2 1024"
        by (simp only: dT double_of_minus)
      then show ?thesis
        using pow2_pos [of 1024] by (simp add: int_to_float_def to_double_def)
    qed
  qed
qed

lemma fdiv_by_ten: "\<exists>tenth. fdiv a (Finite 10) = Inr tenth"
  by (cases a) simp_all

text \<open>
  Claim C6. The skill of a boxer is the float that Python's evaluation of
  \<^verbatim>\<open>weight * len(name) + reach / 10 + age_modifier\<close> gives, the age modifier being -1
  below 25, -2 above 35 and 0 otherwise: the exact integer product converted to a float,
  plus the float quotient of the reach by 10, plus the modifier, each sum rounded to the
  nearest double. The conversion raises \<^verbatim>\<open>OverflowError\<close> exactly when the product is
  2^1024 - 2^970 or more in magnitude. The value is determined by the weight, name
  length, reach and age of the snapshot alone.
\<close>

theorem get_fighting_skill_formula:
  "(\<exists>tenth. fdiv (reach b) (Finite 10) = Inr tenth
      \<and> (\<forall>r. reach b = Finite r \<longrightarrow> tenth = to_double (r / 10))
      \<and> (\<bar>weight b * int (length (name b))\<bar> < 2 ^ 1024 - 2 ^ 970 \<longrightarrow>
           get_fighting_skill b =
             Inr (fadd (fadd (Finite (double_of (real_of_int (weight b * int (length (name b))))))
                          tenth)
                    (Finite (if age b < 25 then - 1 else if age b > 35 then - 2 else 0)))))
   \<and> (2 ^ 1024 - 2 ^ 970 \<le> \<bar>weight b * int (length (name b))\<bar> \<longrightarrow>
        get_fighting_skill b = Inl (OverflowError Int_too_large))
   \<and> (weight b' = weight b \<and> length (name b') = length (name b)
        \<and> reach b' = reach b \<and> age b' = age b
      \<longrightarrow> get_fighting_skill b' = get_fighting_skill b)"
proof -
  obtain tenth where tenth: "fdiv (reach b) (Finite 10) = Inr tenth"
    using fdiv_by_ten by blast
  have fin: "tenth = to_double (r / 10)" if "reach b = Finite r" for r
    using tenth that by simp
  have val: "get_fighting_skill b =
      Inr (fadd (fadd (Finite (double_of (real_of_int (weight b * int (length (name b)))))) tenth)
             (Finite (if age b < 25 then - 1 else if age b > 35 then - 2 else 0)))"
    if "\<bar>weight b * int (length (name b))\<bar> < 2 ^ 1024 - 2 ^ 970"
    using int_to_float_cases(1) [OF that] tenth
    by (simp add: get_fighting_skill_def age_modifier_def)
  have overflow: "get_fighting_skill b = Inl (OverflowError Int_too_large)"
    if "2 ^ 1024 - 2 ^ 970 \<le> \<bar>weight b * int (length (name b))\<bar>"
    using int_to_float_cases(2) [OF that] tenth
    by (simp add: get_fighting_skill_def)
  have same: "get_fighting_skill b' = get_fighting_skill b"
    if "weight b' = weight b \<and> length (name b') = length (name b)
        \<and> reach b' = reach b \<and> age b' = age b"
  proof -
    from that have eqs: "weight b' = weight b" "length (name b') = length (name b)"
      "reach b' = reach b" "age b' = age b"
      by simp_all
    show ?thesis
      unfolding get_fighting_skill_def eqs by (rule refl)
  qed
  show ?thesis
    using tenth fin val overflow same by blast
qed

theorem get_fighting_skill_formula_witness:
  "get_fighting_skill bo = Inr (Finite (2243883329965261 / 2 ^ 43))
   \<and> Finite (2243883329965261 / 2 ^ 43) \<noteq> Finite (2551 / 10)
   \<and> get_fighting_skill (bo\<lparr>boxer_id := 7, height := 1, weight_class := ''none''\<rparr>)
        = Inr (Finite (2243883329965261 / 2 ^ 43))
   \<and> get_fighting_skill (bo\<lparr>weight := 2 ^ 1024\<rparr>) = Inl (OverflowError Int_too_large)"
proof -
  have same: "get_fighting_skill (bo\<lparr>boxer_id := 7, height := 1, weight_class := ''none''\<rparr>)
      = get_fighting_skill bo"
    using get_fighting_skill_formula
      [where b = bo and b' = "bo\<lparr>boxer_id := 7, height := 1, weight_class := ''none''\<rparr>"]
    by simp
  have "(2::int) ^ 1024 - 2 ^ 970 \<le> \<bar>2 ^ 1024 * 2\<bar>"
    by simp
  then have over: "get_fighting_skill (bo\<lparr>weight := 2 ^ 1024\<rparr>)
      = Inl (OverflowError Int_too_large)"
    using get_fighting_skill_formula [where b = "bo\<lparr>weight := 2 ^ 1024\<rparr>" and b' = bo]
    by (simp add: bo_def)
  show ?thesis
    using same over skill_bo by simp
qed

section \<open>A fight between two boxers\<close>

text \<open>
  Claim C1. With exactly two boxers in the ring whose skills are computed, a C library
  whose powers of e to a negative exponent lie between 0 and 1, a random draw r, and both
  boxers' ids present in the table (the path on which nothing raises), \<^verbatim>\<open>fight\<close> takes
  the first occupant as winner exactly when r is below
  1 / (1 + e ** (-\<bar>skill_1 - skill_2\<bar>)), evaluated in floats, and the second otherwise;
  it asks the random source once, calls update_boxer_stats once for the winner with 'win'
  and then once for the loser with 'loss', so that the table is the result of these two
  updates, empties the ring and returns the winner's name.
\<close>

theorem fight_two_boxers:
  assumes ring: "ring w = [boxer_1, boxer_2]"
    and skill_1: "get_fighting_skill boxer_1 = Inr skill_1"
    and skill_2: "get_fighting_skill boxer_2 = Inr skill_2"
    and libm: "pow_in_unit_interval (libm_pow w)"
    and draw: "random_org w (requests w) = Body_number r"
    and stored_1: "boxer_id boxer_1 \<in> boxer_id ` set (boxers w)"
    and stored_2: "boxer_id boxer_2 \<in> boxer_id ` set (boxers w)"
  shows "\<exists>e_pow p tbl1 tbl2.
           float_pow_e (libm_pow w) (fneg (fabs (fsub skill_1 skill_2))) = Inr e_pow
           \<and> fdiv (Finite 1) (fadd (Finite 1) e_pow) = Inr p
           \<and> (let winner = (if flt r p then boxer_1 else boxer_2);
                   loser = (if flt r p then boxer_2 else boxer_1)
               in update_boxer_stats (boxer_id winner) ''win'' (boxers w) = Inr tbl1
                  \<and> update_boxer_stats (boxer_id loser) ''loss'' tbl1 = Inr tbl2
                  \<and> fight w =
                      (Inr (name winner),
                       w\<lparr>ring := [], boxers := tbl2, requests := requests w + 1,
                         calls := calls w @ [Call_get_random,
                           Call_update_boxer_stats (boxer_id winner) ''win'',
                           Call_update_boxer_stats (boxer_id loser) ''loss'']\<rparr>))"
proof -
  obtain p where nd: "normalized_delta (libm_pow w) skill_1 skill_2 = Inr p"
    using normalized_delta_defined [OF libm] by blast
  then obtain e_pow where e_pow:
    "float_pow_e (libm_pow w) (fneg (fabs (fsub skill_1 skill_2))) = Inr e_pow"
    "fdiv (Finite 1) (fadd (Finite 1) e_pow) = Inr p"
    by (auto simp: normalized_delta_def split: sum.splits)
  define winner where "winner = (if flt r p then boxer_1 else boxer_2)"
  define loser where "loser = (if flt r p then boxer_2 else boxer_1)"
  have "boxer_id winner \<in> boxer_id ` set (boxers w)"
    using stored_1 stored_2 by (simp add: winner_def)
  then obtain tbl1 where t1: "update_boxer_stats (boxer_id winner) ''win'' (boxers w) = Inr tbl1"
    using update_boxer_stats_present by blast
  have "boxer_id loser \<in> boxer_id ` set tbl1"
    using stored_1 stored_2 update_boxer_stats_preserves_membership [OF t1] by (simp add: loser_def)
  then obtain tbl2 where t2: "update_boxer_stats (boxer_id loser) ''loss'' tbl1 = Inr tbl2"
    using update_boxer_stats_present by blast
  have "fight w =
          (Inr (name winner),
           w\<lparr>ring := [], boxers := tbl2, requests := requests w + 1,
             calls := calls w @ [Call_get_random,
               Call_update_boxer_stats (boxer_id winner) ''win'',
               Call_update_boxer_stats (boxer_id loser) ''loss'']\<rparr>)"
    by (rule fight_two_success [OF ring skill_1 skill_2 nd draw winner_def loser_def t1 t2])
  with t1 t2 e_pow show ?thesis
    unfolding Let_def winner_def loser_def by blast
qed

text \<open>
  The witness is the fight of Al against Bo at the draw 0.50. Their skills, 255.1 and
  255.10000000000002 as floats, would be equal in exact arithmetic; in floats the
  comparison value is above one half and Al wins.
\<close>

theorem fight_two_boxers_witness:
  "fight (staged al bo (1 / 2) [row_of al 0 0, row_of bo 0 0]) =
     (Inr ''Al'',
      \<lparr>ring = [], boxers = [row_of al 1 1, row_of bo 1 0],
       random_org = (\<lambda>n. Body_number (Finite (1 / 2))), requests = 1,
       libm_pow = correctly_rounded_pow,
       calls = [Call_get_random, Call_update_boxer_stats 1 ''win'',
                Call_update_boxer_stats 2 ''loss'']\<rparr>)"
proof -
  let ?w = "staged al bo (1 / 2) [row_of al 0 0, row_of bo 0 0]"
  let ?s1 = "Finite (8975533319861043 / 2 ^ 45)" and ?s2 = "Finite (2243883329965261 / 2 ^ 43)"
  have ring: "ring ?w = [al, bo]"
    and draw: "random_org ?w (requests ?w) = Body_number (Finite (1 / 2))"
    and libm: "pow_in_unit_interval (libm_pow ?w)"
    and pw: "libm_pow ?w = correctly_rounded_pow"
    and tbl: "boxers ?w = [row_of al 0 0, row_of bo 0 0]"
    by (simp_all add: staged_def to_double_exact correctly_rounded_pow_unit)
  have stored: "boxer_id al \<in> boxer_id ` set (boxers ?w)"
    "boxer_id bo \<in> boxer_id ` set (boxers ?w)"
    by (simp_all add: staged_def row_of_def)
  obtain v where v: "normalized_delta correctly_rounded_pow ?s1 ?s2 = Inr (Finite v)" "1 / 2 < v"
    using normalized_delta_al_bo by blast
  obtain e_pow p tbl1 tbl2 where
    e: "float_pow_e (libm_pow ?w) (fneg (fabs (fsub ?s1 ?s2))) = Inr e_pow"
       "fdiv (Finite 1) (fadd (Finite 1) e_pow) = Inr p"
    and f: "let winner = (if flt (Finite (1 / 2)) p then al else bo);
                loser = (if flt (Finite (1 / 2)) p then bo else al)
            in update_boxer_stats (boxer_id winner) ''win'' (boxers ?w) = Inr tbl1
               \<and> update_boxer_stats (boxer_id loser) ''loss'' tbl1 = Inr tbl2
               \<and> fight ?w =
                   (Inr (name winner),
                    ?w\<lparr>ring := [], boxers := tbl2, requests := requests ?w + 1,
                      calls := calls ?w @ [Call_get_random,
                        Call_update_boxer_stats (boxer_id winner) ''win'',
                        Call_update_boxer_stats (boxer_id loser) ''loss'']\<rparr>)"
    using fight_two_boxers [OF ring skill_al skill_bo libm draw stored] by blast
  have "normalized_delta correctly_rounded_pow ?s1 ?s2 = Inr p"
    using e unfolding normalized_delta_def pw by (simp only: Let_def sum.case)
  then have p: "p = Finite v"
    using v(1) by simp
  have lt: "flt (Finite (1 / 2)) p"
    using v(2) by (simp add: p)
  have ids: "boxer_id al = 1" "boxer_id bo = 2" "name al = ''Al''"
    by (simp_all add: al_def bo_def)
  have u1: "update_boxer_stats 1 ''win'' [row_of al 0 0, row_of bo 0 0]
      = Inr [row_of al 1 1, row_of bo 0 0]"
    by (simp add: update_boxer_stats_def select_id_def row_of_def al_def bo_def)
  have u2: "update_boxer_stats 2 ''loss'' [row_of al 1 1, row_of bo 0 0]
      = Inr [row_of al 1 1, row_of bo 1 0]"
    by (simp add: update_boxer_stats_def select_id_def row_of_def al_def bo_def)
  from f lt have "update_boxer_stats 1 ''win'' [row_of al 0 0, row_of bo 0 0] = Inr tbl1"
    "update_boxer_stats 2 ''loss'' tbl1 = Inr tbl2"
    "fight ?w =
       (Inr ''Al'',
        ?w\<lparr>ring := [], boxers := tbl2, requests := requests ?w + 1,
          calls := calls ?w @ [Call_get_random,
            Call_update_boxer_stats 1 ''win'', Call_update_boxer_stats 2 ''loss'']\<rparr>)"
    by (simp_all add: Let_def ids tbl)
  then show ?thesis
    using u1 u2 by (simp add: staged_def to_double_exact)
qed

section \<open>A fight with fewer than two boxers\<close>

text \<open>
  Claim C4. With fewer than two boxers in the ring, \<^verbatim>\<open>fight\<close> raises the
  two-boxers \<^verbatim>\<open>ValueError\<close> and changes nothing: the ring, the table and the random
  source are as before, and no call to the random source or to the table was made.
\<close>

theorem fight_insufficient_occupants:
  assumes "length (ring w) < 2"
  shows "fight w = (Inl (ValueError Two_boxers_needed), w)
    \<and> ring (snd (fight w)) = ring w
    \<and> boxers (snd (fight w)) = boxers w
    \<and> requests (snd (fight w)) = requests w
    \<and> calls (snd (fight w)) = calls w"
  using assms by (simp add: fight_def)

theorem fight_insufficient_occupants_witness:
  "fight \<lparr>ring = [mike_tyson], boxers = [row_of mike_tyson 0 0],
      random_org = (\<lambda>n. Body_number (Finite (1 / 2))), requests = 0,
      libm_pow = correctly_rounded_pow, calls = []\<rparr>
   = (Inl (ValueError Two_boxers_needed),
      \<lparr>ring = [mike_tyson], boxers = [row_of mike_tyson 0 0],
       random_org = (\<lambda>n. Body_number (Finite (1 / 2))), requests = 0,
       libm_pow = correctly_rounded_pow, calls = []\<rparr>)
   \<and> fst (fight \<lparr>ring = [], boxers = [], random_org = (\<lambda>n. Timeout), requests = 0,
      libm_pow = correctly_rounded_pow, calls = []\<rparr>) = Inl (ValueError Two_boxers_needed)"
  using fight_insufficient_occupants
      [of "\<lparr>ring = [mike_tyson], boxers = [row_of mike_tyson 0 0],
            random_org = (\<lambda>n. Body_number (Finite (1 / 2))), requests = 0,
            libm_pow = correctly_rounded_pow, calls = []\<rparr>"]
    fight_insufficient_occupants
      [of "\<lparr>ring = [], boxers = [], random_org = (\<lambda>n. Timeout), requests = 0,
            libm_pow = correctly_rounded_pow, calls = []\<rparr>"]
  by simp

section \<open>The normalised skill difference\<close>

text \<open>
  Claim C2, as stated: the value 1 / (1 + e^(-|skill_1 - skill_2|)) that \<^verbatim>\<open>fight\<close>
  computes lies strictly between 0.5 and 1 for every pair of boxers in the ring, so that a
  draw below 0.5 always makes the first occupant win. Three pairs refute it. Mike Tyson
  and Evander H. have the same skill, 2207.1, and the value is exactly 0.5, not above it.
  Mike Tyson and Muhammad Ali have skills about 380.7 apart, and the value is exactly 1.0,
  not below it. Ann and Bob both have infinite reach, hence infinite skill; the difference
  of the skills is not a number, nor is the value, no draw is below it, and at the draw
  0.10 the second occupant, Bob, wins.
\<close>

theorem normalized_delta_open_interval_counterexample:
  "get_fighting_skill mike_tyson = Inr (Finite (4853464227328819 / 2 ^ 41))
   \<and> get_fighting_skill evander = Inr (Finite (4853464227328819 / 2 ^ 41))
   \<and> normalized_delta correctly_rounded_pow
        (Finite (4853464227328819 / 2 ^ 41)) (Finite (4853464227328819 / 2 ^ 41))
        = Inr (Finite (1 / 2))
   \<and> \<not> flt (Finite (1 / 2)) (Finite (1 / 2))
   \<and> get_fighting_skill muhammad_ali = Inr (Finite (2845316190358733 / 2 ^ 40))
   \<and> normalized_delta correctly_rounded_pow
        (Finite (4853464227328819 / 2 ^ 41)) (Finite (2845316190358733 / 2 ^ 40))
        = Inr (Finite 1)
   \<and> \<not> flt (Finite 1) (Finite 1)
   \<and> get_fighting_skill ann = Inr PosInf
   \<and> get_fighting_skill bob = Inr PosInf
   \<and> normalized_delta correctly_rounded_pow PosInf PosInf = Inr NaN
   \<and> \<not> fle (Finite (1 / 2)) NaN
   \<and> flt (to_double (1 / 10)) (Finite (1 / 2))
   \<and> fst (fight (staged ann bob (1 / 10) [row_of ann 0 0, row_of bob 0 0])) = Inr ''Bob''"
proof -
  let ?w = "staged ann bob (1 / 10) [row_of ann 0 0, row_of bob 0 0]"
  have tenth: "to_double (1 / 10) = Finite (3602879701896397 / 2 ^ 55)"
    by (subst to_double_evalI [where e = "- 4"]) (simp_all add: pow2_def round_half_even_def)
  have u1: "update_boxer_stats (boxer_id bob) ''win'' (boxers ?w)
      = Inr [row_of ann 0 0, row_of bob 1 1]"
    by (simp add: update_boxer_stats_def select_id_def staged_def row_of_def ann_def bob_def)
  have u2: "update_boxer_stats (boxer_id ann) ''loss'' [row_of ann 0 0, row_of bob 1 1]
      = Inr [row_of ann 1 0, row_of bob 1 1]"
    by (simp add: update_boxer_stats_def select_id_def row_of_def ann_def bob_def)
  have "fight ?w =
          (Inr (name bob),
           ?w\<lparr>ring := [], boxers := [row_of ann 1 0, row_of bob 1 1],
             requests := requests ?w + 1,
             calls := calls ?w @ [Call_get_random,
               Call_update_boxer_stats (boxer_id bob) ''win'',
               Call_update_boxer_stats (boxer_id ann) ''loss'']\<rparr>)"
    by (rule fight_two_success [where ?b1.0 = ann and ?b2.0 = bob and ?s1.0 = PosInf
          and ?s2.0 = PosInf and nd = NaN and r = "to_double (1 / 10)", OF _ _ _ _ _ _ _ u1 u2])
      (simp_all add: staged_def skill_infinite_reach normalized_delta_infinite tenth)
  then have "fst (fight ?w) = Inr ''Bob''"
    by (simp add: bob_def)
  then show ?thesis
    using skill_mike_tyson skill_evander skill_muhammad_ali skill_infinite_reach
      normalized_delta_equal_skill [of correctly_rounded_pow "4853464227328819 / 2 ^ 41"]
      normalized_delta_tyson_ali normalized_delta_infinite [of correctly_rounded_pow]
    by (simp add: tenth)
qed

text \<open>
  Claim C2, amended. Floats are double precision, and the C library's powers of e to a
  negative exponent lie between 0 and 1. When the difference of the two skills is a
  number, the value lies in the closed interval from 0.5 to 1.0; it is exactly 0.5 when
  the skills are equal finite numbers (and exactly 1.0 once e^(-delta) is too small to
  change 1.0, as for the pair above). It is then at least 0.5, so whenever the draw is
  below 0.5 the first occupant is the winner, whichever boxer has the higher skill: the
  first stats update is the first occupant's win, and when both ids are in the table the
  fight returns the first occupant's name. When the difference of the skills is not a
  number, neither is the value, and the second occupant is the winner at every draw.
\<close>

theorem normalized_delta_closed_interval:
  assumes libm: "pow_in_unit_interval libm"
  shows "(fsub skill_1 skill_2 \<noteq> NaN
          \<longrightarrow> (\<exists>v. normalized_delta libm skill_1 skill_2 = Inr (Finite v)
                   \<and> 1 / 2 \<le> v \<and> v \<le> 1))
   \<and> (fsub skill_1 skill_2 = NaN \<longrightarrow> normalized_delta libm skill_1 skill_2 = Inr NaN)
   \<and> normalized_delta libm (Finite x) (Finite x) = Inr (Finite (1 / 2))
   \<and> (ring w = [boxer_1, boxer_2] \<and> libm_pow w = libm
        \<and> get_fighting_skill boxer_1 = Inr skill_1 \<and> get_fighting_skill boxer_2 = Inr skill_2
        \<and> fsub skill_1 skill_2 \<noteq> NaN
        \<and> random_org w (requests w) = Body_number r \<and> flt r (Finite (1 / 2))
        \<longrightarrow> take 2 (drop (length (calls w)) (calls (snd (fight w))))
              = [Call_get_random, Call_update_boxer_stats (boxer_id boxer_1) ''win''])
   \<and> (ring w = [boxer_1, boxer_2] \<and> libm_pow w = libm
        \<and> get_fighting_skill boxer_1 = Inr skill_1 \<and> get_fighting_skill boxer_2 = Inr skill_2
        \<and> fsub skill_1 skill_2 \<noteq> NaN
        \<and> random_org w (requests w) = Body_number r \<and> flt r (Finite (1 / 2))
        \<and> boxer_id boxer_1 \<in> boxer_id ` set (boxers w)
        \<and> boxer_id boxer_2 \<in> boxer_id ` set (boxers w)
        \<longrightarrow> fst (fight w) = Inr (name boxer_1))
   \<and> (ring w = [boxer_1, boxer_2] \<and> libm_pow w = libm
        \<and> get_fighting_skill boxer_1 = Inr skill_1 \<and> get_fighting_skill boxer_2 = Inr skill_2
        \<and> fsub skill_1 skill_2 = NaN
        \<and> random_org w (requests w) = Body_number r
        \<longrightarrow> take 2 (drop (length (calls w)) (calls (snd (fight w))))
              = [Call_get_random, Call_update_boxer_stats (boxer_id boxer_2) ''win''])"
proof -
  have range: "\<exists>v. normalized_delta libm skill_1 skill_2 = Inr (Finite v) \<and> 1 / 2 \<le> v \<and> v \<le> 1"
    if "fsub skill_1 skill_2 \<noteq> NaN"
    using normalized_delta_range [OF libm, of skill_1 skill_2] that by blast
  have nan: "normalized_delta libm skill_1 skill_2 = Inr NaN" if "fsub skill_1 skill_2 = NaN"
    using normalized_delta_range [OF libm, of skill_1 skill_2] that by blast
  have first_call: "take 2 (drop (length (calls w)) (calls (snd (fight w))))
      = [Call_get_random, Call_update_boxer_stats (boxer_id boxer_1) ''win'']"
    if ring: "ring w = [boxer_1, boxer_2]" and pw: "libm_pow w = libm"
      and s1: "get_fighting_skill boxer_1 = Inr skill_1"
      and s2: "get_fighting_skill boxer_2 = Inr skill_2"
      and nn: "fsub skill_1 skill_2 \<noteq> NaN"
      and draw: "random_org w (requests w) = Body_number r" and r: "flt r (Finite (1 / 2))"
  proof -
    obtain v where v: "normalized_delta (libm_pow w) skill_1 skill_2 = Inr (Finite v)" "1 / 2 \<le> v"
      using range [OF nn] pw by blast
    have lt: "flt r (Finite v)"
      by (rule flt_below_half [OF r v(2)])
    show ?thesis
      unfolding fight_two_draw [OF ring s1 s2 v(1) draw]
      using lt by (simp add: Let_def call_update_boxer_stats_def clear_ring_def
          split: sum.splits)
  qed
  have returns: "fst (fight w) = Inr (name boxer_1)"
    if ring: "ring w = [boxer_1, boxer_2]" and pw: "libm_pow w = libm"
      and s1: "get_fighting_skill boxer_1 = Inr skill_1"
      and s2: "get_fighting_skill boxer_2 = Inr skill_2"
      and nn: "fsub skill_1 skill_2 \<noteq> NaN"
      and draw: "random_org w (requests w) = Body_number r" and r: "flt r (Finite (1 / 2))"
      and st1: "boxer_id boxer_1 \<in> boxer_id ` set (boxers w)"
      and st2: "boxer_id boxer_2 \<in> boxer_id ` set (boxers w)"
  proof -
    obtain v where v: "normalized_delta (libm_pow w) skill_1 skill_2 = Inr (Finite v)" "1 / 2 \<le> v"
      using range [OF nn] pw by blast
    have lt: "flt r (Finite v)"
      by (rule flt_below_half [OF r v(2)])
    obtain tbl1 where t1: "update_boxer_stats (boxer_id boxer_1) ''win'' (boxers w) = Inr tbl1"
      using update_boxer_stats_present [OF st1, of "''win''"] by auto
    have "boxer_id boxer_2 \<in> boxer_id ` set tbl1"
      using st2 update_boxer_stats_preserves_membership [OF t1] by simp
    then obtain tbl2 where t2: "update_boxer_stats (boxer_id boxer_2) ''loss'' tbl1 = Inr tbl2"
      using update_boxer_stats_present [of "boxer_id boxer_2" tbl1 "''loss''"] by auto
    show ?thesis
      using fight_two_success [OF ring s1 s2 v(1) draw refl refl, of tbl1 tbl2] lt t1 t2 by simp
  qed
  have second: "take 2 (drop (length (calls w)) (calls (snd (fight w))))
      = [Call_get_random, Call_update_boxer_stats (boxer_id boxer_2) ''win'']"
    if ring: "ring w = [boxer_1, boxer_2]" and pw: "libm_pow w = libm"
      and s1: "get_fighting_skill boxer_1 = Inr skill_1"
      and s2: "get_fighting_skill boxer_2 = Inr skill_2"
      and isnan: "fsub skill_1 skill_2 = NaN"
      and draw: "random_org w (requests w) = Body_number r"
  proof -
    have nd: "normalized_delta (libm_pow w) skill_1 skill_2 = Inr NaN"
      using nan [OF isnan] pw by simp
    have lt: "\<not> flt r NaN"
      by (cases r) simp_all
    show ?thesis
      unfolding fight_two_draw [OF ring s1 s2 nd draw]
      using lt by (simp add: Let_def call_update_boxer_stats_def clear_ring_def
          split: sum.splits)
  qed
  from range have c1: "fsub skill_1 skill_2 \<noteq> NaN
      \<longrightarrow> (\<exists>v. normalized_delta libm skill_1 skill_2 = Inr (Finite v) \<and> 1 / 2 \<le> v \<and> v \<le> 1)"
    by blast
  from nan have c2: "fsub skill_1 skill_2 = NaN \<longrightarrow> normalized_delta libm skill_1 skill_2 = Inr NaN"
    by blast
  from first_call have c4:
    "ring w = [boxer_1, boxer_2] \<and> libm_pow w = libm
        \<and> get_fighting_skill boxer_1 = Inr skill_1 \<and> get_fighting_skill boxer_2 = Inr skill_2
        \<and> fsub skill_1 skill_2 \<noteq> NaN
        \<and> random_org w (requests w) = Body_number r \<and> flt r (Finite (1 / 2))
        \<longrightarrow> take 2 (drop (length (calls w)) (calls (snd (fight w))))
              = [Call_get_random, Call_update_boxer_stats (boxer_id boxer_1) ''win'']"
    by blast
  from returns have c5:
    "ring w = [boxer_1, boxer_2] \<and> libm_pow w = libm
        \<and> get_fighting_skill boxer_1 = Inr skill_1 \<and> get_fighting_skill boxer_2 = Inr skill_2
        \<and> fsub skill_1 skill_2 \<noteq> NaN
        \<and> random_org w (requests w) = Body_number r \<and> flt r (Finite (1 / 2))
        \<and> boxer_id boxer_1 \<in> boxer_id ` set (boxers w)
        \<and> boxer_id boxer_2 \<in> boxer_id ` set (boxers w)
        \<longrightarrow> fst (fight w) = Inr (name boxer_1)"
    by blast
  from second have c6:
    "ring w = [boxer_1, boxer_2] \<and> libm_pow w = libm
        \<and> get_fighting_skill boxer_1 = Inr skill_1 \<and> get_fighting_skill boxer_2 = Inr skill_2
        \<and> fsub skill_1 skill_2 = NaN
        \<and> random_org w (requests w) = Body_number r
        \<longrightarrow> take 2 (drop (length (calls w)) (calls (snd (fight w))))
              = [Call_get_random, Call_update_boxer_stats (boxer_id boxer_2) ''win'']"
    by blast
  show ?thesis
    by (intro conjI, rule c1, rule c2, rule normalized_delta_equal_skill, rule c4, rule c5,
        rule c6)
qed

text \<open>
  The witness is Mike Tyson, the weaker of the two, entering first against Muhammad Ali:
  at the draw 0.10 he wins. The second world is Ann against Bob.
\<close>

theorem normalized_delta_closed_interval_witness:
  "pow_in_unit_interval correctly_rounded_pow
   \<and> get_fighting_skill mike_tyson = Inr (Finite (4853464227328819 / 2 ^ 41))
   \<and> get_fighting_skill muhammad_ali = Inr (Finite (2845316190358733 / 2 ^ 40))
   \<and> flt (Finite (4853464227328819 / 2 ^ 41)) (Finite (2845316190358733 / 2 ^ 40))
   \<and> flt (to_double (1 / 10)) (Finite (1 / 2))
   \<and> take 2 (calls (snd (fight (staged mike_tyson muhammad_ali (1 / 10)
        [row_of mike_tyson 0 0, row_of muhammad_ali 0 0]))))
        = [Call_get_random, Call_update_boxer_stats 1 ''win'']
   \<and> fst (fight (staged mike_tyson muhammad_ali (1 / 10)
        [row_of mike_tyson 0 0, row_of muhammad_ali 0 0])) = Inr ''Mike Tyson''
   \<and> fsub PosInf PosInf = NaN
   \<and> take 2 (calls (snd (fight (staged ann bob (1 / 10) []))))
        = [Call_get_random, Call_update_boxer_stats 2 ''win'']"
proof -
  let ?w = "staged mike_tyson muhammad_ali (1 / 10)
    [row_of mike_tyson 0 0, row_of muhammad_ali 0 0]"
  let ?a = "Finite (2845316190358733 / 2 ^ 40)" and ?t = "Finite (4853464227328819 / 2 ^ 41)"
  have tenth: "to_double (1 / 10) = Finite (3602879701896397 / 2 ^ 55)"
    by (subst to_double_evalI [where e = "- 4"]) (simp_all add: pow2_def round_half_even_def)
  have diff: "fsub ?t ?a = Finite (- (837168153388647 / 2 ^ 41))"
    by (simp add: fsub_def, subst to_double_evalI [where e = 8])
      (simp_all add: pow2_def round_half_even_def)
  have nn: "fsub ?t ?a \<noteq> NaN"
    by (simp only: diff pyfloat.distinct not_False_eq_True)
  have facts: "ring ?w = [mike_tyson, muhammad_ali]" "libm_pow ?w = correctly_rounded_pow"
    "random_org ?w (requests ?w) = Body_number (Finite (3602879701896397 / 2 ^ 55))"
    "calls ?w = []"
    "boxer_id mike_tyson \<in> boxer_id ` set (boxers ?w)"
    "boxer_id muhammad_ali \<in> boxer_id ` set (boxers ?w)"
    "boxer_id mike_tyson = 1" "name mike_tyson = ''Mike Tyson''"
    by (simp_all add: staged_def row_of_def mike_tyson_def tenth)
  have half: "flt (Finite (3602879701896397 / 2 ^ 55)) (Finite (1 / 2))"
    by simp
  have first: "take 2 (calls (snd (fight ?w))) = [Call_get_random, Call_update_boxer_stats 1 ''win'']
      \<and> fst (fight ?w) = Inr ''Mike Tyson''"
    using normalized_delta_closed_interval [OF correctly_rounded_pow_unit,
        of ?t ?a 0 ?w mike_tyson muhammad_ali "Finite (3602879701896397 / 2 ^ 55)"]
      facts skill_muhammad_ali skill_mike_tyson nn half
    by simp
  let ?v = "staged ann bob (1 / 10) []"
  have facts': "ring ?v = [ann, bob]" "libm_pow ?v = correctly_rounded_pow"
    "random_org ?v (requests ?v) = Body_number (Finite (3602879701896397 / 2 ^ 55))"
    "calls ?v = []" "boxer_id bob = 2"
    by (simp_all add: staged_def bob_def tenth)
  have second: "take 2 (calls (snd (fight ?v))) = [Call_get_random, Call_update_boxer_stats 2 ''win'']"
    using normalized_delta_closed_interval [OF correctly_rounded_pow_unit,
        of PosInf PosInf 0 ?v ann bob "Finite (3602879701896397 / 2 ^ 55)"]
      facts' skill_infinite_reach fsub_self(2)
    by simp
  show ?thesis
    using first second correctly_rounded_pow_unit skill_muhammad_ali skill_mike_tyson
      fsub_self(2)
    by (simp add: tenth)
qed

section \<open>A failing stats update\<close>

text \<open>
  Claim C3. On a ring of two boxers, once the draw has chosen the winner (both skills and
  the comparison value were computed): if the winner's update fails, \<^verbatim>\<open>fight\<close>
  raises that error with the ring still holding both boxers and the table untouched; if
  the winner's update succeeds and the loser's fails, \<^verbatim>\<open>fight\<close> raises the loser's
  error with the ring still holding both boxers and the table already carrying the
  winner's incremented counters.
\<close>

theorem fight_update_failure:
  assumes ring: "ring w = [boxer_1, boxer_2]"
    and skill_1: "get_fighting_skill boxer_1 = Inr skill_1"
    and skill_2: "get_fighting_skill boxer_2 = Inr skill_2"
    and cmp: "normalized_delta (libm_pow w) skill_1 skill_2 = Inr p"
    and draw: "random_org w (requests w) = Body_number r"
    and winner: "winner = (if flt r p then boxer_1 else boxer_2)"
    and loser: "loser = (if flt r p then boxer_2 else boxer_1)"
  shows "(update_boxer_stats (boxer_id winner) ''win'' (boxers w) = Inl e
          \<longrightarrow> fst (fight w) = Inl e
              \<and> ring (snd (fight w)) = [boxer_1, boxer_2]
              \<and> boxers (snd (fight w)) = boxers w)
       \<and> (update_boxer_stats (boxer_id winner) ''win'' (boxers w) = Inr tbl1
            \<and> update_boxer_stats (boxer_id loser) ''loss'' tbl1 = Inl e
          \<longrightarrow> fst (fight w) = Inl e
              \<and> ring (snd (fight w)) = [boxer_1, boxer_2]
              \<and> boxers (snd (fight w)) = tbl1)"
  using fight_two_first_fails [OF ring skill_1 skill_2 cmp draw winner, of e]
    fight_two_second_fails [OF ring skill_1 skill_2 cmp draw winner loser, of tbl1 e]
  by (simp add: ring)

theorem fight_update_failure_witness:
  "fst (fight (staged_fight [])) = Inl (ValueError (Boxer_id_not_found 1))
   \<and> ring (snd (fight (staged_fight []))) = [mike_tyson, muhammad_ali]
   \<and> boxers (snd (fight (staged_fight []))) = []
   \<and> fst (fight (staged_fight [row_of mike_tyson 0 0]))
        = Inl (ValueError (Boxer_id_not_found 2))
   \<and> ring (snd (fight (staged_fight [row_of mike_tyson 0 0]))) = [mike_tyson, muhammad_ali]
   \<and> boxers (snd (fight (staged_fight [row_of mike_tyson 0 0]))) = [row_of mike_tyson 1 1]"
proof -
  let ?r = "Finite (3602879701896397 / 2 ^ 55)"
  have tenth: "to_double (1 / 10) = ?r"
    by (subst to_double_evalI [where e = "- 4"]) (simp_all add: pow2_def round_half_even_def)
  have sel: "mike_tyson = (if flt ?r (Finite 1) then mike_tyson else muhammad_ali)"
    "muhammad_ali = (if flt ?r (Finite 1) then muhammad_ali else mike_tyson)"
    by simp_all
  have w: "ring (staged_fight tbl) = [mike_tyson, muhammad_ali]"
    "libm_pow (staged_fight tbl) = correctly_rounded_pow"
    "random_org (staged_fight tbl) (requests (staged_fight tbl)) = Body_number ?r"
    "boxers (staged_fight tbl) = tbl" for tbl
    by (simp_all add: staged_fight_def staged_def tenth)
  have nd: "normalized_delta (libm_pow (staged_fight tbl))
      (Finite (4853464227328819 / 2 ^ 41)) (Finite (2845316190358733 / 2 ^ 40)) = Inr (Finite 1)"
    for tbl
    unfolding w by (rule normalized_delta_tyson_ali)
  have u0: "update_boxer_stats (boxer_id mike_tyson) ''win'' (boxers (staged_fight []))
      = Inl (ValueError (Boxer_id_not_found 1))"
    by (simp add: w update_boxer_stats_def select_id_def mike_tyson_def)
  have u1: "update_boxer_stats (boxer_id mike_tyson) ''win''
        (boxers (staged_fight [row_of mike_tyson 0 0])) = Inr [row_of mike_tyson 1 1]"
    by (simp add: w update_boxer_stats_def select_id_def row_of_def)
  have u2: "update_boxer_stats (boxer_id muhammad_ali) ''loss'' [row_of mike_tyson 1 1]
      = Inl (ValueError (Boxer_id_not_found 2))"
    by (simp add: update_boxer_stats_def select_id_def row_of_def mike_tyson_def
        muhammad_ali_def)
  have a: "fst (fight (staged_fight [])) = Inl (ValueError (Boxer_id_not_found 1))
      \<and> ring (snd (fight (staged_fight []))) = [mike_tyson, muhammad_ali]
      \<and> boxers (snd (fight (staged_fight []))) = boxers (staged_fight [])"
    using fight_update_failure
      [OF w(1) [of "[]"] skill_mike_tyson skill_muhammad_ali nd [of "[]"] w(3) [of "[]"] sel,
        where e = "ValueError (Boxer_id_not_found 1)"] u0
    by simp
  have b: "fst (fight (staged_fight [row_of mike_tyson 0 0]))
        = Inl (ValueError (Boxer_id_not_found 2))
      \<and> ring (snd (fight (staged_fight [row_of mike_tyson 0 0]))) = [mike_tyson, muhammad_ali]
      \<and> boxers (snd (fight (staged_fight [row_of mike_tyson 0 0]))) = [row_of mike_tyson 1 1]"
    using fight_update_failure
      [OF w(1) [of "[row_of mike_tyson 0 0]"] skill_mike_tyson skill_muhammad_ali
          nd [of "[row_of mike_tyson 0 0]"] w(3) [of "[row_of mike_tyson 0 0]"] sel,
        where e = "ValueError (Boxer_id_not_found 2)"
          and ?tbl1.0 = "[row_of mike_tyson 1 1]"] u1 u2
    by simp
  from a b show ?thesis by (simp add: w)
qed

section \<open>Facts about ring operations\<close>

lemma get_fighting_skill_overflow:
  assumes "2 ^ 1024 - 2 ^ 970 \<le> \<bar>weight b * int (length (name b))\<bar>"
  shows "get_fighting_skill b = Inl (OverflowError Int_too_large)"
proof -
  obtain tenth where "fdiv (reach b) (Finite 10) = Inr tenth"
    using fdiv_by_ten by blast
  then show ?thesis
    using int_to_float_cases(2) [OF assms] by (simp add: get_fighting_skill_def)
qed

lemma ring_step_at_most_two:
  "length (ring w) \<le> 2 \<Longrightarrow> length (ring (ring_step w c)) \<le> 2"
proof (cases c)
  case (Enter_ring x)
  assume "length (ring w) \<le> 2"
  then show ?thesis
    by (cases x) (auto simp: Enter_ring enter_ring_def)
next
  case Fight
  assume "length (ring w) \<le> 2"
  then show ?thesis
    using ring_after_fight [of w] by (auto simp: Fight)
qed (simp_all add: clear_ring_def)

lemma ring_steps_at_most_two:
  "length (ring w) \<le> 2 \<Longrightarrow> length (ring (foldl ring_step w cs)) \<le> 2"
  by (induction cs arbitrary: w) (simp_all add: ring_step_at_most_two)

section \<open>The ring holds at most two boxers\<close>

text \<open>
  Claim C9. Each ring operation keeps the number of occupants at two or fewer:
  \<^verbatim>\<open>enter_ring\<close>, \<^verbatim>\<open>fight\<close> and \<^verbatim>\<open>clear_ring\<close> leave a ring of at most two with at most
  two, and \<^verbatim>\<open>get_boxers\<close> returns the occupants and changes nothing; so a ring that
  starts empty holds at most two boxers after any sequence of calls. Entering a boxer
  into a ring that already holds two raises the ring-full \<^verbatim>\<open>ValueError\<close> and leaves the
  ring as it was; entering anything that is not a \<^verbatim>\<open>Boxer\<close> raises \<^verbatim>\<open>TypeError\<close> and
  leaves the ring as it was.
\<close>

theorem ring_at_most_two:
  "(length (ring w) \<le> 2 \<longrightarrow>
      length (ring (snd (enter_ring x w))) \<le> 2
      \<and> length (ring (snd (fight w))) \<le> 2
      \<and> length (ring (clear_ring w)) \<le> 2
      \<and> length (get_boxers w) \<le> 2)
   \<and> get_boxers w = ring w
   \<and> (ring w = [] \<longrightarrow> length (ring (foldl ring_step w cs)) \<le> 2)
   \<and> (length (ring w) = 2 \<longrightarrow>
        enter_ring (PyBoxer b) w = (Inl (ValueError Ring_is_full), w))
   \<and> ((\<forall>b'. x \<noteq> PyBoxer b') \<longrightarrow>
        enter_ring x w = (Inl (TypeError (Invalid_type (type_name x))), w))"
proof -
  have enter: "length (ring (snd (enter_ring x w))) \<le> 2" if "length (ring w) \<le> 2"
    using that by (cases x) (auto simp: enter_ring_def)
  have fight: "length (ring (snd (fight w))) \<le> 2" if "length (ring w) \<le> 2"
    using that ring_after_fight [of w] by auto
  have clear: "length (ring (clear_ring w)) \<le> 2" if "length (ring w) \<le> 2"
    using that by (simp add: clear_ring_def)
  have full: "enter_ring (PyBoxer b) w = (Inl (ValueError Ring_is_full), w)"
    if "length (ring w) = 2"
    using that by (simp add: enter_ring_def)
  have mismatch: "enter_ring x w = (Inl (TypeError (Invalid_type (type_name x))), w)"
    if "\<forall>b'. x \<noteq> PyBoxer b'"
    using that by (cases x) (simp_all add: enter_ring_def)
  have reach: "length (ring (foldl ring_step w cs)) \<le> 2" if "ring w = []"
    using ring_steps_at_most_two [of w cs] that by simp
  show ?thesis
    using enter fight clear full mismatch reach by (simp add: get_boxers_def)
qed

theorem ring_at_most_two_witness:
  "length (ring (staged_fight [])) = 2
   \<and> enter_ring (PyBoxer evander) (staged_fight [])
        = (Inl (ValueError Ring_is_full), staged_fight [])
   \<and> enter_ring (PyInt 1) (staged_fight [])
        = (Inl (TypeError (Invalid_type ''int'')), staged_fight [])
   \<and> length (ring (snd (fight (staged_fight [])))) \<le> 2
   \<and> length (ring (clear_ring (staged_fight []))) \<le> 2
   \<and> length (get_boxers (staged_fight [])) \<le> 2
   \<and> length (ring (foldl ring_step
        \<lparr>ring = [], boxers = [], random_org = (\<lambda>n. Timeout), requests = 0,
         libm_pow = correctly_rounded_pow, calls = []\<rparr>
        [Enter_ring (PyBoxer mike_tyson), Enter_ring (PyBoxer muhammad_ali),
         Enter_ring (PyBoxer evander), Fight, Get_boxers, Clear_ring])) \<le> 2"
proof -
  have two: "length (ring (staged_fight [])) = 2"
    by (simp add: staged_fight_def staged_def)
  have not_boxer: "\<forall>b'. PyInt 1 \<noteq> PyBoxer b'"
    by simp
  have a: "enter_ring (PyBoxer evander) (staged_fight [])
        = (Inl (ValueError Ring_is_full), staged_fight [])
      \<and> enter_ring (PyInt 1) (staged_fight [])
        = (Inl (TypeError (Invalid_type ''int'')), staged_fight [])
      \<and> length (ring (snd (fight (staged_fight [])))) \<le> 2
      \<and> length (ring (clear_ring (staged_fight []))) \<le> 2
      \<and> length (get_boxers (staged_fight [])) \<le> 2"
    using ring_at_most_two [where w = "staged_fight []" and x = "PyInt 1" and b = evander]
      two not_boxer
    by simp
  have b: "length (ring (foldl ring_step
        \<lparr>ring = [], boxers = [], random_org = (\<lambda>n. Timeout), requests = 0,
         libm_pow = correctly_rounded_pow, calls = []\<rparr>
        [Enter_ring (PyBoxer mike_tyson), Enter_ring (PyBoxer muhammad_ali),
         Enter_ring (PyBoxer evander), Fight, Get_boxers, Clear_ring])) \<le> 2"
    using ring_at_most_two
      [where w = "\<lparr>ring = [], boxers = [], random_org = (\<lambda>n. Timeout), requests = 0,
                   libm_pow = correctly_rounded_pow, calls = []\<rparr>"
         and cs = "[Enter_ring (PyBoxer mike_tyson), Enter_ring (PyBoxer muhammad_ali),
                    Enter_ring (PyBoxer evander), Fight, Get_boxers, Clear_ring]"]
    by simp
  from two a b show ?thesis by simp
qed

section \<open>One boxer entered twice\<close>

text \<open>
  Claim C10. \<^verbatim>\<open>enter_ring\<close> does not look for the boxer among the occupants: entering
  the same boxer twice into an empty ring succeeds both times and leaves the boxer in
  both places. When the random source then answers with a number and the boxer's id is
  in the table, \<^verbatim>\<open>fight\<close> returns the boxer's name after updating the same id once
  with 'win' and once with 'loss', so that every row with that id has its fights raised
  by 2 and its wins by 1, the other rows staying as they were. This is what happens
  whenever the boxer's skill is computed; a boxer whose skill raises (the product of
  weight and name length too large for a float) makes \<^verbatim>\<open>fight\<close> raise that error
  with both occupants still in the ring.
\<close>

theorem same_boxer_twice:
  assumes empty: "ring w = []"
    and draw: "random_org w (requests w) = Body_number r"
    and stored: "boxer_id b \<in> boxer_id ` set (boxers w)"
  shows "\<exists>w1 w2.
           enter_ring (PyBoxer b) w = (Inr (), w1)
           \<and> enter_ring (PyBoxer b) w1 = (Inr (), w2)
           \<and> ring w2 = [b, b]
           \<and> (get_fighting_skill b = Inr s \<longrightarrow>
               fight w2 =
                 (Inr (name b),
                  w\<lparr>boxers := map (\<lambda>row. if boxer_id row = boxer_id b
                                           then row\<lparr>fights := fights row + 2, wins := wins row + 1\<rparr>
                                           else row) (boxers w),
                    requests := requests w + 1,
                    calls := calls w @ [Call_get_random,
                      Call_update_boxer_stats (boxer_id b) ''win'',
                      Call_update_boxer_stats (boxer_id b) ''loss'']\<rparr>))
           \<and> (get_fighting_skill b = Inl e \<longrightarrow> fight w2 = (Inl e, w2))"
proof -
  let ?w1 = "w\<lparr>ring := [b]\<rparr>" and ?w2 = "w\<lparr>ring := [b, b]\<rparr>"
  let ?tbl1 = "map (\<lambda>row. if boxer_id row = boxer_id b
                   then row\<lparr>fights := fights row + 1, wins := wins row + 1\<rparr> else row) (boxers w)"
  let ?tbl2 = "map (\<lambda>row. if boxer_id row = boxer_id b
                   then row\<lparr>fights := fights row + 2, wins := wins row + 1\<rparr> else row) (boxers w)"
  have e1: "enter_ring (PyBoxer b) w = (Inr (), ?w1)"
    by (simp add: enter_ring_def empty)
  have e2: "enter_ring (PyBoxer b) ?w1 = (Inr (), ?w2)"
    by (simp add: enter_ring_def)
  have t1: "update_boxer_stats (boxer_id b) ''win'' (boxers ?w2) = Inr ?tbl1"
    using stored by (simp add: update_boxer_stats_def select_id_empty)
  have "boxer_id b \<in> boxer_id ` set ?tbl1"
    using stored update_boxer_stats_preserves_membership [OF t1] by simp
  then have t2: "update_boxer_stats (boxer_id b) ''loss'' ?tbl1 = Inr ?tbl2"
    by (simp add: update_boxer_stats_def select_id_empty)
  have success: "fight ?w2 =
          (Inr (name b),
           w\<lparr>boxers := ?tbl2, requests := requests w + 1,
             calls := calls w @ [Call_get_random,
               Call_update_boxer_stats (boxer_id b) ''win'',
               Call_update_boxer_stats (boxer_id b) ''loss'']\<rparr>)"
    if skill: "get_fighting_skill b = Inr s"
  proof -
    obtain nd where nd: "normalized_delta (libm_pow ?w2) s s = Inr nd"
      using normalized_delta_self_defined by blast
    have "fight ?w2 =
          (Inr (name b),
           ?w2\<lparr>ring := [], boxers := ?tbl2, requests := requests ?w2 + 1,
             calls := calls ?w2 @ [Call_get_random,
               Call_update_boxer_stats (boxer_id b) ''win'',
               Call_update_boxer_stats (boxer_id b) ''loss'']\<rparr>)"
      using fight_two_success [of ?w2 b b s s nd r b b ?tbl1 ?tbl2] draw t1 t2 skill nd
      by simp
    then show ?thesis
      using empty by simp
  qed
  have failure: "fight ?w2 = (Inl e, ?w2)" if "get_fighting_skill b = Inl e"
    using that by (simp add: fight_def get_boxers_def)
  from e1 e2 success failure show ?thesis by force
qed

text \<open>
  The witness enters Mike Tyson twice; the second world enters a boxer whose weight is
  2^1024.
\<close>

theorem same_boxer_twice_witness:
  "fight (snd (enter_ring (PyBoxer mike_tyson) (snd (enter_ring (PyBoxer mike_tyson)
      \<lparr>ring = [], boxers = [row_of mike_tyson 0 0, row_of muhammad_ali 0 0],
       random_org = (\<lambda>n. Body_number (Finite (1 / 2))), requests = 0,
       libm_pow = correctly_rounded_pow, calls = []\<rparr>))))
   = (Inr ''Mike Tyson'',
      \<lparr>ring = [], boxers = [row_of mike_tyson 2 1, row_of muhammad_ali 0 0],
       random_org = (\<lambda>n. Body_number (Finite (1 / 2))), requests = 1,
       libm_pow = correctly_rounded_pow,
       calls = [Call_get_random, Call_update_boxer_stats 1 ''win'',
                Call_update_boxer_stats 1 ''loss'']\<rparr>)
   \<and> fight (snd (enter_ring (PyBoxer (bo\<lparr>weight := 2 ^ 1024\<rparr>))
        (snd (enter_ring (PyBoxer (bo\<lparr>weight := 2 ^ 1024\<rparr>))
      \<lparr>ring = [], boxers = [row_of al 0 0, row_of bo 0 0],
       random_org = (\<lambda>n. Body_number (Finite (1 / 2))), requests = 0,
       libm_pow = correctly_rounded_pow, calls = []\<rparr>))))
   = (Inl (OverflowError Int_too_large),
      \<lparr>ring = [bo\<lparr>weight := 2 ^ 1024\<rparr>, bo\<lparr>weight := 2 ^ 1024\<rparr>],
       boxers = [row_of al 0 0, row_of bo 0 0],
       random_org = (\<lambda>n. Body_number (Finite (1 / 2))), requests = 0,
       libm_pow = correctly_rounded_pow, calls = []\<rparr>)"
proof -
  let ?w = "\<lparr>ring = [], boxers = [row_of mike_tyson 0 0, row_of muhammad_ali 0 0],
       random_org = (\<lambda>n. Body_number (Finite (1 / 2))), requests = 0,
       libm_pow = correctly_rounded_pow, calls = []\<rparr>"
  have hyps: "ring ?w = []" "random_org ?w (requests ?w) = Body_number (Finite (1 / 2))"
    "boxer_id mike_tyson \<in> boxer_id ` set (boxers ?w)"
    by (simp_all add: row_of_def)
  have vals: "boxer_id mike_tyson = 1" "name mike_tyson = ''Mike Tyson''"
    "boxer_id (row_of mike_tyson 0 0) = 1" "boxer_id (row_of muhammad_ali 0 0) = 2"
    "(row_of mike_tyson 0 0)\<lparr>fights := 2, wins := 1\<rparr> = row_of mike_tyson 2 1"
    "fights (row_of mike_tyson 0 0) = 0" "wins (row_of mike_tyson 0 0) = 0"
    by (simp_all add: mike_tyson_def muhammad_ali_def row_of_def)
  from same_boxer_twice [OF hyps, where s = "Finite (4853464227328819 / 2 ^ 41)"]
  obtain w1 w2 where
    "enter_ring (PyBoxer mike_tyson) ?w = (Inr (), w1)"
    "enter_ring (PyBoxer mike_tyson) w1 = (Inr (), w2)"
    "fight w2 =
       (Inr (name mike_tyson),
        ?w\<lparr>boxers := map (\<lambda>row. if boxer_id row = boxer_id mike_tyson
                                 then row\<lparr>fights := fights row + 2, wins := wins row + 1\<rparr>
                                 else row) (boxers ?w),
          requests := requests ?w + 1,
          calls := calls ?w @ [Call_get_random,
            Call_update_boxer_stats (boxer_id mike_tyson) ''win'',
            Call_update_boxer_stats (boxer_id mike_tyson) ''loss'']\<rparr>)"
    using skill_mike_tyson by blast
  then have first: "fight (snd (enter_ring (PyBoxer mike_tyson)
      (snd (enter_ring (PyBoxer mike_tyson) ?w))))
    = (Inr ''Mike Tyson'',
      \<lparr>ring = [], boxers = [row_of mike_tyson 2 1, row_of muhammad_ali 0 0],
       random_org = (\<lambda>n. Body_number (Finite (1 / 2))), requests = 1,
       libm_pow = correctly_rounded_pow,
       calls = [Call_get_random, Call_update_boxer_stats 1 ''win'',
                Call_update_boxer_stats 1 ''loss'']\<rparr>)"
    by (simp add: vals)
  let ?b = "bo\<lparr>weight := 2 ^ 1024\<rparr>"
  let ?v = "\<lparr>ring = [], boxers = [row_of al 0 0, row_of bo 0 0],
       random_org = (\<lambda>n. Body_number (Finite (1 / 2))), requests = 0,
       libm_pow = correctly_rounded_pow, calls = []\<rparr>"
  have hyps': "ring ?v = []" "random_org ?v (requests ?v) = Body_number (Finite (1 / 2))"
    "boxer_id ?b \<in> boxer_id ` set (boxers ?v)"
    by (simp_all add: row_of_def bo_def)
  have "(2::int) ^ 1024 - 2 ^ 970 \<le> \<bar>weight ?b * int (length (name ?b))\<bar>"
    by (simp add: bo_def)
  then have over: "get_fighting_skill ?b = Inl (OverflowError Int_too_large)"
    by (rule get_fighting_skill_overflow)
  from same_boxer_twice [OF hyps', where e = "OverflowError Int_too_large"]
  obtain v1 v2 where
    "enter_ring (PyBoxer ?b) ?v = (Inr (), v1)"
    "enter_ring (PyBoxer ?b) v1 = (Inr (), v2)"
    "ring v2 = [?b, ?b]"
    "fight v2 = (Inl (OverflowError Int_too_large), v2)"
    using over by blast
  then have second: "fight (snd (enter_ring (PyBoxer ?b) (snd (enter_ring (PyBoxer ?b) ?v))))
    = (Inl (OverflowError Int_too_large),
      \<lparr>ring = [?b, ?b], boxers = [row_of al 0 0, row_of bo 0 0],
       random_org = (\<lambda>n. Body_number (Finite (1 / 2))), requests = 0,
       libm_pow = correctly_rounded_pow, calls = []\<rparr>)"
    by (auto simp: enter_ring_def)
  from first second show ?thesis
    by (rule conjI)
qed

section \<open>Updating a boxer's statistics\<close>



end
